theory Spec2Isabelle
  imports Complex_Main
begin

section \<open>The mission replay script\<close>

text \<open>
  A shallow embedding of \<^verbatim>\<open>python/examples/replay_mission/replay_mission.py\<close>.
  The script is a sequence of calls to the robot SDK. The robot, the SDK and the file
  system are the environment: the model keeps a world that holds the files, the answers
  the environment is going to give, the calls made so far with the answer each one got,
  a clock and the lease wallet. Every function of the script is a function from a world
  to an outcome and a new world.
\<close>

subsection \<open>Values exchanged with the robot\<close>

text \<open>
  Modelled from the spec: the generated protobuf modules (\<^verbatim>\<open>mission_pb2\<close>,
  \<^verbatim>\<open>estop_pb2\<close>, \<^verbatim>\<open>map_pb2\<close>, \<^verbatim>\<open>nodes_pb2\<close>) are not part of the sources.
  The mission status has the six values the specification lists; a mission state is a
  status and the pending operator questions; of a graph, a waypoint, an edge and a
  snapshot only the fields the script reads are kept (a snapshot also has a payload).
\<close>

datatype status =
  STATUS_NONE | STATUS_RUNNING | STATUS_SUCCESS | STATUS_FAILURE | STATUS_PAUSED | STATUS_ERROR

record mission_state =
  status :: status
  questions :: "string list"

datatype stop_level = ESTOP_LEVEL_NONE | ESTOP_LEVEL_CUT | ESTOP_LEVEL_SETTLE_THEN_CUT

record waypoint =
  waypoint_snapshot_id :: string

record edge =
  edge_snapshot_id :: string

record graph =
  waypoints :: "waypoint list"
  edges :: "edge list"

record waypoint_snapshot =
  ws_id :: string
  ws_payload :: "nat list"

record edge_snapshot =
  es_id :: string
  es_payload :: "nat list"

datatype node = Node string "node list"

text \<open>
  Modelled from the spec: the lease and its wallet belong to the SDK. A lease is its
  revision number; the wallet holds the current revision, and advancing it increments the
  revision and hands out the new one.
\<close>

type_synonym lease = nat

datatype service =
  LeaseService | GraphNavService | MissionService | RobotCommandService
  | RobotStateService | EstopService

datatype command = StandCommand

datatype level = INFO | ERROR | FATAL

text \<open>
  The calls the script makes. A log line is recorded by its level and its message
  template (the arguments are not rendered); output written with \<^verbatim>\<open>print\<close> is not
  modelled.
\<close>

datatype event =
    LoadAppToken string
  | Authenticate string string
  | WaitForSync
  | EnsureClient service
  | AcquireLease
  | KeepAliveEnter
  | KeepAliveExit
  | ClearGraph
  | UploadGraph graph lease
  | UploadWaypointSnapshot waypoint_snapshot lease
  | UploadEdgeSnapshot edge_snapshot lease
  | LoadMission node "lease list"
  | EstopGetStatus
  | IsPoweredOn
  | PowerOn nat
  | PowerOff bool nat
  | RobotCommand command
  | Sleep nat
  | GetState
  | PlayMission real "lease list"
  | RestartMission real "lease list"
  | ReturnLease lease
  | Log level string

text \<open>What a call returns, and the two ways it can end.\<close>

datatype pyval =
    PNone
  | PBool bool
  | PLease lease
  | PState mission_state
  | PStatus status
  | PEstop stop_level

datatype answer = Raises | Returns pyval

datatype content =
    GraphFile graph
  | WaypointSnapshotFile waypoint_snapshot
  | EdgeSnapshotFile edge_snapshot
  | MissionFile node
  | OtherFile

datatype exn =
    Fault
  | IOError string
  | DecodeError string
  | SystemExit int
  | AssertionError string
  | Exception string

subsection \<open>The world and the programs over it\<close>

text \<open>
  \<open>script\<close> is what the environment does next: for each coming call, how long it takes
  (in milliseconds) and whether it raises or returns a value. \<open>trace\<close> is the history:
  each call made, with its answer (a local action, such as a log line or a sleep, is
  recorded with the answer \<open>Returns PNone\<close>). \<open>clock\<close> is the wall clock in seconds.
\<close>

record world =
  files :: "string \<Rightarrow> content option"
  dirs :: "string set"
  script :: "(nat \<times> answer) list"
  trace :: "(event \<times> answer) list"
  clock :: real
  wallet :: lease

text \<open>
  A program maps a world to \<open>None\<close> when the script ends before the program does (the
  recorded answers do not determine the run: this is where a run that polls for ever
  ends up, on every finite part of an endless sequence of answers), and otherwise to the
  outcome, \<open>Inl\<close> an exception that was raised or \<open>Inr\<close> the value returned, with the world
  the program leaves.
\<close>

type_synonym 'a prog = "world \<Rightarrow> ((exn + 'a) \<times> world) option"

definition returnE :: "'a \<Rightarrow> 'a prog" where
  "returnE x = (\<lambda>w. Some (Inr x, w))"

definition raiseE :: "exn \<Rightarrow> 'a prog" where
  "raiseE e = (\<lambda>w. Some (Inl e, w))"

definition bindE :: "'a prog \<Rightarrow> ('a \<Rightarrow> 'b prog) \<Rightarrow> 'b prog" where
  "bindE m f = (\<lambda>w. case m w of
      None \<Rightarrow> None
    | Some (Inl e, w') \<Rightarrow> Some (Inl e, w')
    | Some (Inr x, w') \<Rightarrow> f x w')"

definition thenE :: "'a prog \<Rightarrow> 'b prog \<Rightarrow> 'b prog" where
  "thenE m n = bindE m (\<lambda>_. n)"

text \<open>
  Python's \<^verbatim>\<open>try: body finally: handler\<close>: the handler runs however the body ends; when
  the handler raises, its exception replaces the body's outcome, otherwise the body's
  outcome stands.
\<close>

definition try_finally :: "'a prog \<Rightarrow> unit prog \<Rightarrow> 'a prog" where
  "try_finally body handler = (\<lambda>w. case body w of
      None \<Rightarrow> None
    | Some (r, w1) \<Rightarrow> (case handler w1 of
          None \<Rightarrow> None
        | Some (Inl e, w2) \<Rightarrow> Some (Inl e, w2)
        | Some (Inr _, w2) \<Rightarrow> Some (r, w2)))"

text \<open>A local action: recorded, takes no time, cannot fail.\<close>

definition emit :: "event \<Rightarrow> unit prog" where
  "emit e = (\<lambda>w. Some (Inr (), w\<lparr>trace := trace w @ [(e, Returns PNone)]\<rparr>))"

definition logger :: "level \<Rightarrow> string \<Rightarrow> unit prog" where
  "logger l msg = emit (Log l msg)"

text \<open>
  A call to the SDK: the environment's next answer decides how long it takes and whether
  it raises (any exception of the SDK is \<open>Fault\<close>) or returns.
\<close>

definition call :: "event \<Rightarrow> pyval prog" where
  "call e = (\<lambda>w. case script w of
      [] \<Rightarrow> None
    | (d, a) # rest \<Rightarrow>
        (let w' = w\<lparr>script := rest, trace := trace w @ [(e, a)],
                     clock := clock w + real d / 1000\<rparr>
         in case a of Raises \<Rightarrow> Some (Inl Fault, w') | Returns v \<Rightarrow> Some (Inr v, w')))"

text \<open>\<^verbatim>\<open>time.time()\<close> and \<^verbatim>\<open>time.sleep(n)\<close> (a sleep lasts exactly \<open>n\<close> seconds).\<close>

definition time_time :: "real prog" where
  "time_time = (\<lambda>w. Some (Inr (clock w), w))"

definition time_sleep :: "nat \<Rightarrow> unit prog" where
  "time_sleep n = (\<lambda>w. Some (Inr (),
     w\<lparr>trace := trace w @ [(Sleep n, Returns PNone)], clock := clock w + real n\<rparr>))"

text \<open>\<^verbatim>\<open>lease_client.lease_wallet.advance()\<close>.\<close>

definition advance :: "lease prog" where
  "advance = (\<lambda>w. Some (Inr (Suc (wallet w)), w\<lparr>wallet := Suc (wallet w)\<rparr>))"

text \<open>
  The calls whose result the script reads. A value of another shape than the call's
  result type is a malformed response: the call raises.
\<close>

definition get_state :: "mission_state prog" where
  "get_state = bindE (call GetState)
     (\<lambda>v. case v of PState ms \<Rightarrow> returnE ms | _ \<Rightarrow> raiseE Fault)"

definition is_powered_on :: "bool prog" where
  "is_powered_on = bindE (call IsPoweredOn)
     (\<lambda>v. case v of PBool b \<Rightarrow> returnE b | _ \<Rightarrow> raiseE Fault)"

subsection \<open>Running the mission once\<close>

text \<open>
  One turn of the loop of \<^verbatim>\<open>run_mission\<close> after the question check: advance the lease,
  play the mission until \<^verbatim>\<open>time.time() + mission_timeout\<close>, sleep one second, poll.
\<close>

definition play_and_poll :: "real \<Rightarrow> mission_state prog" where
  "play_and_poll mission_timeout =
     bindE advance (\<lambda>body_lease.
     bindE time_time (\<lambda>now.
     thenE (call (PlayMission (now + mission_timeout) [body_lease]))
    (thenE (time_sleep 1)
     get_state)))"

lemma call_script_less:
  "call e w = Some (r, w') \<Longrightarrow> length (script w') < length (script w)"
  by (auto simp: call_def Let_def split: list.splits answer.splits)

lemma get_state_script_less:
  "get_state w = Some (r, w') \<Longrightarrow> length (script w') < length (script w)"
  by (auto simp: get_state_def bindE_def returnE_def raiseE_def
      split: option.splits sum.splits pyval.splits dest: call_script_less)

lemma play_and_poll_script_less:
  "play_and_poll t w = Some (r, w') \<Longrightarrow> length (script w') < length (script w)"
  by (auto simp: play_and_poll_def bindE_def thenE_def advance_def time_time_def
      time_sleep_def
      split: option.splits sum.splits dest!: call_script_less get_state_script_less)

text \<open>
  The \<^verbatim>\<open>while\<close> loop of \<^verbatim>\<open>run_mission\<close>, entered with the state just polled.
\<close>

function run_loop :: "bool \<Rightarrow> real \<Rightarrow> mission_state \<Rightarrow> bool prog" where
  "run_loop fail_on_question mission_timeout mission_state w =
     (if status mission_state \<in> {STATUS_NONE, STATUS_RUNNING} then
        if questions mission_state \<noteq> [] \<and> fail_on_question then
          thenE (logger INFO ''Mission failed by triggering operator question.'')
                (returnE False) w
        else
          (case play_and_poll mission_timeout w of
             None \<Rightarrow> None
           | Some (Inl e, w') \<Rightarrow> Some (Inl e, w')
           | Some (Inr mission_state', w') \<Rightarrow>
               run_loop fail_on_question mission_timeout mission_state' w')
      else returnE (status mission_state \<in> {STATUS_SUCCESS, STATUS_PAUSED}) w)"
  by pat_completeness auto
termination
  by (relation "measure (\<lambda>(f, t, ms, w). length (script w))")
     (auto dest: play_and_poll_script_less)

definition run_mission :: "bool \<Rightarrow> real \<Rightarrow> bool prog" where
  "run_mission fail_on_question mission_timeout =
     thenE (logger INFO ''Running mission'')
    (bindE get_state (run_loop fail_on_question mission_timeout))"

declare run_loop.simps [simp del]

lemma bindE_SomeE:
  assumes "bindE m f w = Some (r, w')"
  obtains (raised) e where "m w = Some (Inl e, w')" and "r = Inl e"
    | (returned) x w1 where "m w = Some (Inr x, w1)" and "f x w1 = Some (r, w')"
  using assms by (auto simp: bindE_def split: option.splits sum.splits)

lemma thenE_SomeE:
  assumes "thenE m n w = Some (r, w')"
  obtains (raised) e where "m w = Some (Inl e, w')" and "r = Inl e"
    | (returned) x w1 where "m w = Some (Inr x, w1)" and "n w1 = Some (r, w')"
  using assms unfolding thenE_def by (rule bindE_SomeE)

lemma run_loop_stop:
  "status ms \<notin> {STATUS_NONE, STATUS_RUNNING} \<Longrightarrow>
   run_loop f t ms w = Some (Inr (status ms \<in> {STATUS_SUCCESS, STATUS_PAUSED}), w)"
  by (subst run_loop.simps) (simp add: returnE_def)

lemma run_loop_abort:
  "status ms \<in> {STATUS_NONE, STATUS_RUNNING} \<Longrightarrow> questions ms \<noteq> [] \<Longrightarrow> f \<Longrightarrow>
   run_loop f t ms w =
     Some (Inr False, w\<lparr>trace := trace w @
       [(Log INFO ''Mission failed by triggering operator question.'', Returns PNone)]\<rparr>)"
  by (subst run_loop.simps)
     (simp add: thenE_def bindE_def logger_def emit_def returnE_def)

lemma run_loop_step:
  "status ms \<in> {STATUS_NONE, STATUS_RUNNING} \<Longrightarrow> \<not> (questions ms \<noteq> [] \<and> f) \<Longrightarrow>
   run_loop f t ms w = bindE (play_and_poll t) (run_loop f t) w"
  by (subst run_loop.simps) (auto simp: bindE_def split: option.splits sum.splits)

lemma run_loop_induct [consumes 1, case_names stop abort raised step]:
  assumes run: "run_loop f t ms w = Some (r, w')"
    and stop: "\<And>ms w. status ms \<notin> {STATUS_NONE, STATUS_RUNNING} \<Longrightarrow>
        P ms w (Inr (status ms \<in> {STATUS_SUCCESS, STATUS_PAUSED})) w"
    and abort: "\<And>ms w. status ms \<in> {STATUS_NONE, STATUS_RUNNING} \<Longrightarrow>
        questions ms \<noteq> [] \<Longrightarrow> f \<Longrightarrow>
        P ms w (Inr False) (w\<lparr>trace := trace w @
          [(Log INFO ''Mission failed by triggering operator question.'', Returns PNone)]\<rparr>)"
    and raised: "\<And>ms w e w1. status ms \<in> {STATUS_NONE, STATUS_RUNNING} \<Longrightarrow>
        \<not> (questions ms \<noteq> [] \<and> f) \<Longrightarrow> play_and_poll t w = Some (Inl e, w1) \<Longrightarrow>
        P ms w (Inl e) w1"
    and step: "\<And>ms w ms1 w1 r w'. status ms \<in> {STATUS_NONE, STATUS_RUNNING} \<Longrightarrow>
        \<not> (questions ms \<noteq> [] \<and> f) \<Longrightarrow> play_and_poll t w = Some (Inr ms1, w1) \<Longrightarrow>
        run_loop f t ms1 w1 = Some (r, w') \<Longrightarrow> P ms1 w1 r w' \<Longrightarrow> P ms w r w'"
  shows "P ms w r w'"
  using run
proof (induction "length (script w)" arbitrary: ms w r w' rule: less_induct)
  case less
  note run = \<open>run_loop f t ms w = Some (r, w')\<close>
  show ?case
  proof (cases "status ms \<in> {STATUS_NONE, STATUS_RUNNING}")
    case False
    with run stop [OF False] show ?thesis by (simp add: run_loop_stop)
  next
    case running: True
    show ?thesis
    proof (cases "questions ms \<noteq> [] \<and> f")
      case True
      with running run abort [of ms w] show ?thesis
        by (auto simp: run_loop_abort)
    next
      case False
      from run have "bindE (play_and_poll t) (run_loop f t) w = Some (r, w')"
        by (simp add: run_loop_step [OF running False])
      then show ?thesis
      proof (cases rule: bindE_SomeE)
        case (raised e)
        with running False show ?thesis by (auto intro: assms(4))
      next
        case (returned ms1 w1)
        from less.hyps [OF play_and_poll_script_less [OF returned(1)] returned(2)]
        have "P ms1 w1 r w'" .
        with running False returned show ?thesis by (auto intro: step)
      qed
    qed
  qed
qed

lemma run_loop_script_le:
  "run_loop f t ms w = Some (r, w') \<Longrightarrow> length (script w') \<le> length (script w)"
  by (induction rule: run_loop_induct)
     (auto dest: play_and_poll_script_less)

lemma run_mission_script_le:
  "run_mission f t w = Some (r, w') \<Longrightarrow> length (script w') \<le> length (script w)"
  by (auto simp: run_mission_def thenE_def bindE_def logger_def emit_def
      split: option.splits sum.splits
      dest!: get_state_script_less run_loop_script_le)

subsection \<open>Restarting and repeating the mission\<close>

definition restart_mission :: "real \<Rightarrow> bool prog" where
  "restart_mission mission_timeout =
     thenE (logger INFO ''Restarting mission'')
    (bindE advance (\<lambda>body_lease.
     bindE time_time (\<lambda>now.
     bindE (call (RestartMission (now + mission_timeout) [body_lease])) (\<lambda>status.
     thenE (time_sleep 1)
    (returnE (status = PStatus STATUS_SUCCESS))))))"

text \<open>
  One turn of the loop of \<^verbatim>\<open>repeat_mission\<close>, up to the log line that reports the
  elapsed time: the new values of \<^verbatim>\<open>mission_success\<close> and \<^verbatim>\<open>elapsed_time\<close>.
\<close>

definition restart_and_run :: "real \<Rightarrow> bool \<Rightarrow> real \<Rightarrow> (bool \<times> real) prog" where
  "restart_and_run start_time fail_on_question timeout =
     thenE (restart_mission 3)
    (bindE (run_mission fail_on_question timeout) (\<lambda>mission_success.
     bindE time_time (\<lambda>now.
     thenE (logger INFO ''Elapsed time = {} (out of {})'')
    (returnE (mission_success, now - start_time)))))"

lemma restart_mission_script_less:
  "restart_mission t w = Some (r, w') \<Longrightarrow> length (script w') < length (script w)"
  by (auto simp: restart_mission_def bindE_def thenE_def advance_def time_time_def
      time_sleep_def logger_def emit_def returnE_def
      split: option.splits sum.splits dest!: call_script_less)

lemma restart_and_run_script_less:
  "restart_and_run s f t w = Some (r, w') \<Longrightarrow> length (script w') < length (script w)"
  by (auto simp: restart_and_run_def bindE_def thenE_def time_time_def
      logger_def emit_def returnE_def
      split: option.splits sum.splits
      dest!: restart_mission_script_less run_mission_script_le)

function repeat_loop :: "real \<Rightarrow> real \<Rightarrow> bool \<Rightarrow> real \<Rightarrow> bool \<Rightarrow> real \<Rightarrow> bool prog" where
  "repeat_loop start_time total_time fail_on_question timeout mission_success elapsed_time w =
     (if elapsed_time < total_time then
        (case restart_and_run start_time fail_on_question timeout w of
           None \<Rightarrow> None
         | Some (Inl e, w') \<Rightarrow> Some (Inl e, w')
         | Some (Inr (mission_success', elapsed_time'), w') \<Rightarrow>
             if \<not> mission_success' then
               thenE (logger INFO ''Mission failed.'') (returnE mission_success') w'
             else
               repeat_loop start_time total_time fail_on_question timeout
                 mission_success' elapsed_time' w')
      else returnE mission_success w)"
  by pat_completeness auto
termination
  by (relation "measure (\<lambda>(s, tt, f, t, ms, el, w). length (script w))")
     (auto dest: restart_and_run_script_less)

declare repeat_loop.simps [simp del]

definition repeat_mission :: "real \<Rightarrow> bool \<Rightarrow> real \<Rightarrow> bool prog" where
  "repeat_mission total_time fail_on_question timeout =
     thenE (logger INFO ''Repeating mission for {} seconds.'')
    (bindE time_time (\<lambda>start_time.
     bindE (run_mission fail_on_question timeout) (\<lambda>mission_success.
     bindE time_time (\<lambda>now.
     thenE (logger INFO ''Elapsed time = {} (out of {})'')
    (if \<not> mission_success then
       thenE (logger INFO ''Mission failed.'') (returnE False)
     else
       repeat_loop start_time total_time fail_on_question timeout
         mission_success (now - start_time))))))"

subsection \<open>Power and emergency stop\<close>

definition ensure_power_off :: "bool prog" where
  "ensure_power_off =
     bindE is_powered_on (\<lambda>on.
     thenE (if on then thenE (call (PowerOff False 20)) (returnE ()) else returnE ())
    (bindE is_powered_on (\<lambda>still_on.
     if still_on then
       thenE (logger ERROR ''Error powering off robot.'') (returnE False)
     else
       thenE (logger INFO ''Robot safely powered off.'') (returnE True))))"

definition ensure_power_on :: "bool prog" where
  "ensure_power_on =
     bindE is_powered_on (\<lambda>on.
     if on then returnE True
     else
       thenE (logger INFO ''Powering on robot...'')
      (thenE (call (PowerOn 20))
      (bindE is_powered_on (\<lambda>now_on.
       if now_on then
         thenE (logger INFO ''Robot powered on.'') (returnE True)
       else
         thenE (logger ERROR ''Error powering on robot.'') (returnE False)))))"

definition estop_message :: string where
  "estop_message = ''Robot is estopped. Please use an external E-Stop client, such as the''
     @ '' estop SDK example, to configure E-Stop.''"

definition verify_estop :: "unit prog" where
  "verify_estop =
     thenE (call (EnsureClient EstopService))
    (bindE (call EstopGetStatus) (\<lambda>v. case v of
        PEstop stop_level \<Rightarrow>
          if stop_level \<noteq> ESTOP_LEVEL_NONE then
            thenE (logger ERROR estop_message) (raiseE (Exception estop_message))
          else returnE ()
      | _ \<Rightarrow> raiseE Fault))"

primrec countdown :: "nat \<Rightarrow> unit prog" where
  "countdown 0 = returnE ()"
| "countdown (Suc n) = thenE (time_sleep 1) (countdown n)"

subsection \<open>Files and uploads\<close>

text \<open>
  \<^verbatim>\<open>os.path.join\<close> (the POSIX one), \<^verbatim>\<open>os.path.isfile\<close>, \<^verbatim>\<open>os.path.isdir\<close>, and
  reading a file: \<^verbatim>\<open>open\<close> raises when there is no such file. The content of a file
  is what the protobuf parser makes of it; a file that is not of the kind the script
  parses it as makes the parser raise.
\<close>

definition path_join :: "string \<Rightarrow> string \<Rightarrow> string" where
  "path_join a b =
     (if b \<noteq> [] \<and> hd b = CHR ''/'' then b
      else if a = [] \<or> last a = CHR ''/'' then a @ b
      else a @ ''/'' @ b)"

definition isfile :: "string \<Rightarrow> bool prog" where
  "isfile path = (\<lambda>w. Some (Inr (files w path \<noteq> None), w))"

definition isdir :: "string \<Rightarrow> bool prog" where
  "isdir path = (\<lambda>w. Some (Inr (path \<in> dirs w), w))"

definition read_file :: "string \<Rightarrow> content prog" where
  "read_file path = (\<lambda>w. case files w path of
      None \<Rightarrow> Some (Inl (IOError path), w)
    | Some c \<Rightarrow> Some (Inr c, w))"

text \<open>
  A Python \<^verbatim>\<open>dict\<close>, in insertion order: storing under a key that is present replaces
  the value where it stands, storing under a new key appends.
\<close>

fun dict_set :: "'k \<Rightarrow> 'v \<Rightarrow> ('k \<times> 'v) list \<Rightarrow> ('k \<times> 'v) list" where
  "dict_set k v [] = [(k, v)]"
| "dict_set k v ((k', v') # d) =
     (if k' = k then (k, v) # d else (k', v') # dict_set k v d)"

definition dict_values :: "('k \<times> 'v) list \<Rightarrow> 'v list" where
  "dict_values d = map snd d"

text \<open>The three loading steps and the three upload steps of
  \<^verbatim>\<open>upload_graph_and_snapshots\<close>.\<close>

definition load_graph :: "string \<Rightarrow> graph prog" where
  "load_graph path =
     (let graph_filename = path_join path ''graph'' in
      thenE (logger INFO (''Loading graph from '' @ graph_filename))
     (bindE (read_file graph_filename) (\<lambda>data. case data of
        GraphFile current_graph \<Rightarrow>
          thenE (logger INFO ''Loaded graph has {} waypoints and {} edges'')
                (returnE current_graph)
      | _ \<Rightarrow> raiseE (DecodeError graph_filename))))"

fun load_waypoint_snapshots ::
  "string \<Rightarrow> waypoint list \<Rightarrow> (string \<times> waypoint_snapshot) list
   \<Rightarrow> (string \<times> waypoint_snapshot) list prog" where
  "load_waypoint_snapshots path [] current_waypoint_snapshots =
     returnE current_waypoint_snapshots"
| "load_waypoint_snapshots path (waypoint # rest) current_waypoint_snapshots =
     (let snapshot_filename =
        path_join (path_join path ''waypoint_snapshots'') (waypoint_snapshot_id waypoint) in
      thenE (logger INFO (''Loading waypoint snapshot from '' @ snapshot_filename))
     (bindE (read_file snapshot_filename) (\<lambda>data. case data of
        WaypointSnapshotFile waypoint_snapshot \<Rightarrow>
          load_waypoint_snapshots path rest
            (dict_set (ws_id waypoint_snapshot) waypoint_snapshot current_waypoint_snapshots)
      | _ \<Rightarrow> raiseE (DecodeError snapshot_filename))))"

fun load_edge_snapshots ::
  "string \<Rightarrow> edge list \<Rightarrow> (string \<times> edge_snapshot) list
   \<Rightarrow> (string \<times> edge_snapshot) list prog" where
  "load_edge_snapshots path [] current_edge_snapshots = returnE current_edge_snapshots"
| "load_edge_snapshots path (edge # rest) current_edge_snapshots =
     (let snapshot_filename =
        path_join (path_join path ''edge_snapshots'') (edge_snapshot_id edge) in
      thenE (logger INFO (''Loading edge snapshot from '' @ snapshot_filename))
     (bindE (read_file snapshot_filename) (\<lambda>data. case data of
        EdgeSnapshotFile edge_snapshot \<Rightarrow>
          load_edge_snapshots path rest
            (dict_set (es_id edge_snapshot) edge_snapshot current_edge_snapshots)
      | _ \<Rightarrow> raiseE (DecodeError snapshot_filename))))"

fun upload_waypoint_snapshots :: "lease \<Rightarrow> waypoint_snapshot list \<Rightarrow> unit prog" where
  "upload_waypoint_snapshots lease [] = returnE ()"
| "upload_waypoint_snapshots lease (waypoint_snapshot # rest) =
     thenE (call (UploadWaypointSnapshot waypoint_snapshot lease))
    (thenE (logger INFO ''Uploaded {}'')
    (upload_waypoint_snapshots lease rest))"

fun upload_edge_snapshots :: "lease \<Rightarrow> edge_snapshot list \<Rightarrow> unit prog" where
  "upload_edge_snapshots lease [] = returnE ()"
| "upload_edge_snapshots lease (edge_snapshot # rest) =
     thenE (call (UploadEdgeSnapshot edge_snapshot lease))
    (thenE (logger INFO ''Uploaded {}'')
    (upload_edge_snapshots lease rest))"

definition upload_graph_and_snapshots :: "lease \<Rightarrow> string \<Rightarrow> unit prog" where
  "upload_graph_and_snapshots lease path =
     bindE (load_graph path) (\<lambda>current_graph.
     bindE (load_waypoint_snapshots path (waypoints current_graph) [])
       (\<lambda>current_waypoint_snapshots.
     bindE (load_edge_snapshots path (edges current_graph) [])
       (\<lambda>current_edge_snapshots.
     thenE (logger INFO ''Uploading the graph and snapshots to the robot...'')
    (thenE (call (UploadGraph current_graph lease))
    (thenE (logger INFO ''Uploaded graph.'')
    (thenE (upload_waypoint_snapshots lease (dict_values current_waypoint_snapshots))
    (upload_edge_snapshots lease (dict_values current_edge_snapshots))))))))"

definition upload_mission :: "string \<Rightarrow> lease \<Rightarrow> unit prog" where
  "upload_mission filename lease =
     thenE (logger INFO (''Loading mission from '' @ filename))
    (bindE (read_file filename) (\<lambda>data. case data of
       MissionFile mission_proto \<Rightarrow>
         thenE (logger INFO ''Uploading the mission to the robot...'')
        (thenE (call (LoadMission mission_proto [lease]))
        (logger INFO ''Uploaded mission to robot.''))
     | _ \<Rightarrow> raiseE (DecodeError filename)))"

subsection \<open>Clients, and the script as a whole\<close>

text \<open>
  \<^verbatim>\<open>init_clients\<close>; with \<^verbatim>\<open>do_map_load\<close> and no map directory,
  \<^verbatim>\<open>os.path.isdir(None)\<close> raises a \<^verbatim>\<open>TypeError\<close>. The clients it returns are handles on
  the world and are not values of the model.
\<close>

definition load_map :: "lease \<Rightarrow> string option \<Rightarrow> unit prog" where
  "load_map lease map_directory =
     (case map_directory of
        None \<Rightarrow> raiseE (Exception ''TypeError'')
      | Some dir \<Rightarrow>
          bindE (isdir dir) (\<lambda>found.
          if \<not> found then
            thenE (logger FATAL ''Unable to find map directory: {}.'') (raiseE (SystemExit 1))
          else
            thenE (logger INFO ''Creating graph-nav client...'')
           (thenE (call (EnsureClient GraphNavService))
           (thenE (logger INFO ''Clearing graph-nav state...'')
           (thenE (call ClearGraph)
           (upload_graph_and_snapshots lease dir))))))"

definition init_clients :: "lease \<Rightarrow> string \<Rightarrow> string option \<Rightarrow> bool \<Rightarrow> unit prog" where
  "init_clients lease mission_file map_directory do_map_load =
     bindE (isfile mission_file) (\<lambda>found.
     if \<not> found then
       thenE (logger FATAL ''Unable to find mission file: {}.'') (raiseE (SystemExit 1))
     else
       thenE (if do_map_load then load_map lease map_directory else returnE ())
      (thenE (logger INFO ''Creating mission client...'')
      (thenE (call (EnsureClient MissionService))
      (thenE (upload_mission mission_file lease)
      (thenE (logger INFO ''Creating command client...'')
      (thenE (call (EnsureClient RobotCommandService))
      (thenE (logger INFO ''Creating robot state client...'')
      (thenE (call (EnsureClient RobotStateService))
      (returnE ())))))))))"

definition init_robot :: "string \<Rightarrow> string \<Rightarrow> string \<Rightarrow> string \<Rightarrow> unit prog" where
  "init_robot hostname username password token =
     thenE (call (LoadAppToken token))
    (thenE (call (Authenticate username password))
    (thenE (call WaitForSync)
    (returnE ())))"

text \<open>
  \<^verbatim>\<open>lease_client.acquire()\<close> puts the lease it gets into the wallet; the script also
  provides for the value \<^verbatim>\<open>None\<close>.
\<close>

definition acquire :: "lease option prog" where
  "acquire = bindE (call AcquireLease) (\<lambda>v. case v of
      PLease l \<Rightarrow> (\<lambda>w. Some (Inr (Some l), w\<lparr>wallet := l\<rparr>))
    | PNone \<Rightarrow> returnE None
    | _ \<Rightarrow> raiseE Fault)"

text \<open>\<^verbatim>\<open>with LeaseKeepAlive(lease_client): body\<close>.\<close>

definition with_lease_keep_alive :: "'a prog \<Rightarrow> 'a prog" where
  "with_lease_keep_alive body =
     thenE (emit KeepAliveEnter) (try_finally body (emit KeepAliveExit))"

record args =
  hostname :: string
  username :: string
  password :: string
  app_token :: string
  map_directory :: "string option"
  mission_file :: "string option"
  timeout :: real
  duration :: real
  static_mode :: bool

text \<open>
  The body of the \<^verbatim>\<open>with\<close> block of \<^verbatim>\<open>main\<close>, the \<^verbatim>\<open>finally\<close> block, and the
  \<^verbatim>\<open>try\<close> statement they make.
\<close>

definition mission_body :: "args \<Rightarrow> string \<Rightarrow> bool \<Rightarrow> bool \<Rightarrow> lease \<Rightarrow> unit prog" where
  "mission_body a the_mission_file do_map_load fail_on_question body_lease =
     thenE (init_clients body_lease the_mission_file (map_directory a) do_map_load)
    (thenE verify_estop
    (bindE ensure_power_on (\<lambda>powered.
     if \<not> powered then raiseE (AssertionError ''Robot power on failed.'')
     else
       thenE (logger INFO ''Commanding robot to stand...'')
      (thenE (call (RobotCommand StandCommand))
      (thenE (countdown 5)
      (thenE (logger INFO ''Robot standing.'')
      (if \<not> static_mode a then
         if duration a = 0 then
           thenE (run_mission fail_on_question (timeout a)) (returnE ())
         else
           thenE (repeat_mission (duration a) fail_on_question (timeout a)) (returnE ())
       else returnE ())))))))"

definition release :: "lease \<Rightarrow> unit prog" where
  "release body_lease =
     bindE ensure_power_off (\<lambda>power_off_success.
     thenE (logger INFO ''Returning lease...'')
    (thenE (call (ReturnLease body_lease))
    (returnE ())))"

definition replay :: "args \<Rightarrow> string \<Rightarrow> bool \<Rightarrow> bool \<Rightarrow> lease \<Rightarrow> unit prog" where
  "replay a the_mission_file do_map_load fail_on_question body_lease =
     try_finally
       (with_lease_keep_alive
          (mission_body a the_mission_file do_map_load fail_on_question body_lease))
       (release body_lease)"

text \<open>
  The mission file \<^verbatim>\<open>main\<close> settles on: Python takes \<^verbatim>\<open>None\<close> and the empty string for
  false.
\<close>

definition falsy :: "string option \<Rightarrow> bool" where
  "falsy s = (s = None \<or> s = Some [])"

definition resolve_mission_file :: "args \<Rightarrow> string prog" where
  "resolve_mission_file a =
     (if falsy (mission_file a) then
        if falsy (map_directory a) then
          raiseE (Exception ''Must specify at least one of map_directory or --mission.'')
        else
          returnE (path_join (path_join (the (map_directory a)) ''missions'') ''autogenerated'')
      else returnE (the (mission_file a)))"

text \<open>
  \<^verbatim>\<open>main\<close>, in two parts: up to the acquisition of the lease (the mission file settled
  on, and the lease or \<^verbatim>\<open>None\<close>), and as a whole.
\<close>

definition startup :: "args \<Rightarrow> (string \<times> lease option) prog" where
  "startup a =
     bindE (resolve_mission_file a) (\<lambda>the_mission_file.
     thenE (init_robot (hostname a) (username a) (password a) (app_token a))
    (thenE (logger INFO ''Acquiring lease...'')
    (thenE (call (EnsureClient LeaseService))
    (bindE acquire (\<lambda>body_lease.
     returnE (the_mission_file, body_lease))))))"

definition main :: "args \<Rightarrow> unit prog" where
  "main a =
     (let do_map_load = (map_directory a \<noteq> None);
          fail_on_question = (map_directory a \<noteq> None) in
      bindE (startup a) (\<lambda>(the_mission_file, body_lease).
      case body_lease of
        None \<Rightarrow> raiseE (Exception ''Lease not acquired.'')
      | Some body_lease \<Rightarrow>
          thenE (logger INFO ''Lease acquired: %s'')
                (replay a the_mission_file do_map_load fail_on_question body_lease)))"

text \<open>A world at the start of a run: the files, the directories and the script given,
  nothing called yet.\<close>

definition initial_world ::
  "(string \<Rightarrow> content option) \<Rightarrow> string set \<Rightarrow> (nat \<times> answer) list \<Rightarrow> world" where
  "initial_world fs ds answers =
     \<lparr>files = fs, dirs = ds, script = answers, trace = [], clock = 0, wallet = 0\<rparr>"

section \<open>The calls a program makes\<close>

text \<open>
  What a run adds to the trace, and the polls and the play-mission calls in it.
\<close>

definition new_trace :: "world \<Rightarrow> world \<Rightarrow> (event \<times> answer) list" where
  "new_trace w w' = drop (length (trace w)) (trace w')"

fun polled :: "(event \<times> answer) list \<Rightarrow> mission_state list" where
  "polled [] = []"
| "polled ((GetState, Returns (PState ms)) # es) = ms # polled es"
| "polled (_ # es) = polled es"

fun is_play :: "event \<Rightarrow> bool" where
  "is_play (PlayMission _ _) = True"
| "is_play _ = False"

definition plays :: "(event \<times> answer) list \<Rightarrow> nat" where
  "plays es = length (filter (\<lambda>(e, a). is_play e) es)"

text \<open>The world after a log line; the restart calls and the runs in a trace (a run is
  counted by the line \<^verbatim>\<open>run_mission\<close> logs when it starts).\<close>

definition logged :: "level \<Rightarrow> string \<Rightarrow> world \<Rightarrow> world" where
  "logged l s w = w\<lparr>trace := trace w @ [(Log l s, Returns PNone)]\<rparr>"

fun is_restart :: "event \<Rightarrow> bool" where
  "is_restart (RestartMission _ _) = True"
| "is_restart _ = False"

definition restarts :: "(event \<times> answer) list \<Rightarrow> nat" where
  "restarts es = length (filter (\<lambda>(e, a). is_restart e) es)"

definition runs :: "(event \<times> answer) list \<Rightarrow> nat" where
  "runs es = length (filter (\<lambda>(e, a). e = Log INFO ''Running mission'') es)"

text \<open>
  Scripts for a run of the polling loop. A round is one turn of the loop: how long the
  play-mission call takes and what it returns, how long the poll takes and the state it
  reports. A polled state lets the loop go on when its status is none or running and it
  does not trigger the abort on a question.
\<close>

fun rounds_script :: "(nat \<times> pyval \<times> nat \<times> mission_state) list \<Rightarrow> (nat \<times> answer) list" where
  "rounds_script [] = []"
| "rounds_script ((dp, v, dg, ms) # rs) =
     (dp, Returns v) # (dg, Returns (PState ms)) # rounds_script rs"

definition round_states :: "(nat \<times> pyval \<times> nat \<times> mission_state) list \<Rightarrow> mission_state list" where
  "round_states rs = map (\<lambda>(dp, v, dg, s). s) rs"

definition continuing :: "bool \<Rightarrow> mission_state \<Rightarrow> bool" where
  "continuing f ms \<longleftrightarrow>
     status ms \<in> {STATUS_NONE, STATUS_RUNNING} \<and> \<not> (questions ms \<noteq> [] \<and> f)"

text \<open>Three mission states for the examples.\<close>

definition running :: mission_state where
  "running = \<lparr>status = STATUS_RUNNING, questions = []\<rparr>"

definition asking :: mission_state where
  "asking = \<lparr>status = STATUS_RUNNING, questions = [''Continue?'']\<rparr>"

definition paused :: mission_state where
  "paused = \<lparr>status = STATUS_PAUSED, questions = []\<rparr>"

definition succeeded :: mission_state where
  "succeeded = \<lparr>status = STATUS_SUCCESS, questions = []\<rparr>"

definition failed :: mission_state where
  "failed = \<lparr>status = STATUS_FAILURE, questions = []\<rparr>"

text \<open>
  A run of four seconds that succeeds: every call answers at once, the mission is running
  at the first four polls, one second apart, and has succeeded at the fifth. Three such
  runs, with a restart that takes \<open>d\<close> milliseconds to answer between them. And a run of
  four seconds with one turn of the loop, whose play-mission call takes three seconds;
  three of these, with two restarts that return the statuses given.
\<close>

definition four_second_run :: "(nat \<times> answer) list" where
  "four_second_run = (0, Returns (PState running)) #
     rounds_script [(0, PNone, 0, running), (0, PNone, 0, running), (0, PNone, 0, running),
       (0, PNone, 0, succeeded)]"

definition three_runs :: "nat \<Rightarrow> world" where
  "three_runs d = initial_world Map.empty {}
     (four_second_run @ [(d, Returns (PStatus STATUS_SUCCESS))] @
      four_second_run @ [(d, Returns (PStatus STATUS_SUCCESS))] @
      four_second_run)"

definition one_turn_run :: "(nat \<times> answer) list" where
  "one_turn_run =
     [(0, Returns (PState running)), (3000, Returns PNone), (0, Returns (PState succeeded))]"

definition three_short_runs :: "status \<Rightarrow> status \<Rightarrow> world" where
  "three_short_runs s1 s2 = initial_world Map.empty {}
     (one_turn_run @ [(0, Returns (PStatus s1))] @
      one_turn_run @ [(500, Returns (PStatus s2))] @
      one_turn_run)"

text \<open>
  Two answers are alike when they are the same, or when each returns a mission status (the
  kind of value \<^verbatim>\<open>restart_mission\<close> reads from its call). Scripts, traces and worlds are
  alike when they are the same but for answers that are alike; two outcomes agree when
  neither is there, or both raise the same exception, or both return values that are
  related, and the worlds they leave are alike.
\<close>

definition status_blind :: "answer \<Rightarrow> answer \<Rightarrow> bool" where
  "status_blind a b \<longleftrightarrow> a = b \<or> (\<exists>s s'. a = Returns (PStatus s) \<and> b = Returns (PStatus s'))"

definition scripts_alike :: "(nat \<times> answer) list \<Rightarrow> (nat \<times> answer) list \<Rightarrow> bool" where
  "scripts_alike xs ys \<longleftrightarrow> list_all2 (\<lambda>(d, a) (d', b). d = d' \<and> status_blind a b) xs ys"

definition traces_alike :: "(event \<times> answer) list \<Rightarrow> (event \<times> answer) list \<Rightarrow> bool" where
  "traces_alike xs ys \<longleftrightarrow> list_all2 (\<lambda>(e, a) (e', b). e = e' \<and> status_blind a b) xs ys"

definition alike :: "world \<Rightarrow> world \<Rightarrow> bool" where
  "alike w w' \<longleftrightarrow>
     files w = files w' \<and> dirs w = dirs w' \<and> clock w = clock w' \<and> wallet w = wallet w' \<and>
     scripts_alike (script w) (script w') \<and> traces_alike (trace w) (trace w')"

definition agree ::
  "('a \<Rightarrow> 'b \<Rightarrow> bool) \<Rightarrow> ((exn + 'a) \<times> world) option \<Rightarrow> ((exn + 'b) \<times> world) option \<Rightarrow> bool" where
  "agree R x y \<longleftrightarrow>
     (x = None \<and> y = None) \<or>
     (\<exists>e v v'. x = Some (Inl e, v) \<and> y = Some (Inl e, v') \<and> alike v v') \<or>
     (\<exists>a b v v'. x = Some (Inr a, v) \<and> y = Some (Inr b, v') \<and> R a b \<and> alike v v')"

definition value_blind :: "pyval \<Rightarrow> pyval \<Rightarrow> bool" where
  "value_blind a b \<longleftrightarrow> a = b \<or> (\<exists>s s'. a = PStatus s \<and> b = PStatus s')"

text \<open>
  Kinds of calls: the calls to graph-nav that clear the localization state or upload the
  map, the upload of the mission, the return of the lease; the log line of a run that is
  aborted on an operator question. What the body of the \<^verbatim>\<open>with\<close> block may add to the
  trace, given \<^verbatim>\<open>do_map_load\<close> and \<^verbatim>\<open>fail_on_question\<close>, and what \<^verbatim>\<open>main\<close> may.
\<close>

fun graph_nav_call :: "event \<Rightarrow> bool" where
  "graph_nav_call ClearGraph = True"
| "graph_nav_call (UploadGraph _ _) = True"
| "graph_nav_call (UploadWaypointSnapshot _ _) = True"
| "graph_nav_call (UploadEdgeSnapshot _ _) = True"
| "graph_nav_call _ = False"

fun is_load_mission :: "event \<Rightarrow> bool" where
  "is_load_mission (LoadMission _ _) = True"
| "is_load_mission _ = False"

fun is_return_lease :: "event \<Rightarrow> bool" where
  "is_return_lease (ReturnLease _) = True"
| "is_return_lease _ = False"

definition question_abort :: event where
  "question_abort = Log INFO ''Mission failed by triggering operator question.''"

definition body_ok :: "bool \<Rightarrow> bool \<Rightarrow> event \<times> answer \<Rightarrow> bool" where
  "body_ok do_map_load fail_on_question =
     (\<lambda>(e, a). (graph_nav_call e \<longrightarrow> do_map_load) \<and> (e = question_abort \<longrightarrow> fail_on_question)
        \<and> \<not> is_return_lease e)"

definition main_ok :: "bool \<Rightarrow> bool \<Rightarrow> event \<times> answer \<Rightarrow> bool" where
  "main_ok do_map_load fail_on_question =
     (\<lambda>(e, a). (graph_nav_call e \<longrightarrow> do_map_load) \<and> (e = question_abort \<longrightarrow> fail_on_question))"

definition returned_leases :: "(event \<times> answer) list \<Rightarrow> nat" where
  "returned_leases es = length (filter (\<lambda>(e, a). is_return_lease e) es)"



text \<open>
  A run for the examples: a mission file and no map directory; the answers up to the
  acquisition of the lease (token, authentication, time sync, lease client, lease 7), the
  answers from there to the stand command (mission client, mission upload, command and
  state clients, estop client and status, power query, stand command), a run of the
  mission with a pending question at its first poll, and the answers of the release (the
  robot is on, the power-off call answers as given, the robot is off, the lease is
  returned). And a run whose mission file is missing, with the robot off at the release.
\<close>

definition mission_only :: args where
  "mission_only = \<lparr>hostname = ''spot'', username = ''user'', password = ''secret'',
     app_token = ''token'', map_directory = None, mission_file = Some ''mission.bin'',
     timeout = 3, duration = 0, static_mode = False\<rparr>"

definition mission_disk :: "string \<Rightarrow> content option" where
  "mission_disk = Map.empty(''mission.bin'' \<mapsto> MissionFile (Node ''root'' []))"

definition startup_answers :: "(nat \<times> answer) list" where
  "startup_answers = [(0, Returns PNone), (0, Returns PNone), (0, Returns PNone),
     (0, Returns PNone), (0, Returns (PLease 7))]"

definition preflight_answers :: "(nat \<times> answer) list" where
  "preflight_answers = [(0, Returns PNone), (0, Returns PNone), (0, Returns PNone),
     (0, Returns PNone), (0, Returns PNone), (0, Returns (PEstop ESTOP_LEVEL_NONE)),
     (0, Returns (PBool True)), (0, Returns PNone)]"

definition asked_run_answers :: "(nat \<times> answer) list" where
  "asked_run_answers = [(0, Returns (PState asking)), (0, Returns PNone),
     (0, Returns (PState succeeded))]"

definition release_answers :: "answer \<Rightarrow> (nat \<times> answer) list" where
  "release_answers power_off = [(0, Returns (PBool True)), (0, power_off),
     (0, Returns (PBool False)), (0, Returns PNone)]"

definition full_run :: "answer \<Rightarrow> world" where
  "full_run power_off = initial_world mission_disk {}
     (startup_answers @ preflight_answers @ asked_run_answers @ release_answers power_off)"


text \<open>
  \<open>emits P m\<close>: whenever the program \<open>m\<close> ends, it has only added to the trace, and every
  entry it added satisfies \<open>P\<close>.
\<close>

definition emits :: "(event \<times> answer \<Rightarrow> bool) \<Rightarrow> 'a prog \<Rightarrow> bool" where
  "emits P m \<longleftrightarrow>
     (\<forall>w r w'. m w = Some (r, w') \<longrightarrow> (\<exists>evs. trace w' = trace w @ evs \<and> list_all P evs))"

lemma emitsI:
  "(\<And>w r w'. m w = Some (r, w') \<Longrightarrow> \<exists>evs. trace w' = trace w @ evs \<and> list_all P evs)
   \<Longrightarrow> emits P m"
  by (simp add: emits_def)

lemma emitsD:
  "emits P m \<Longrightarrow> m w = Some (r, w') \<Longrightarrow> \<exists>evs. trace w' = trace w @ evs \<and> list_all P evs"
  by (simp add: emits_def)

lemma emits_returnE: "emits P (returnE x)"
  by (simp add: emits_def returnE_def)

lemma emits_raiseE: "emits P (raiseE e)"
  by (simp add: emits_def raiseE_def)

lemma emits_bindE: "emits P m \<Longrightarrow> (\<And>x. emits P (f x)) \<Longrightarrow> emits P (bindE m f)"
proof (rule emitsI)
  fix w r w'
  assume m: "emits P m" and f: "\<And>x. emits P (f x)" and run: "bindE m f w = Some (r, w')"
  from run show "\<exists>evs. trace w' = trace w @ evs \<and> list_all P evs"
  proof (cases rule: bindE_SomeE)
    case (raised e)
    with m show ?thesis by (auto dest: emitsD)
  next
    case (returned x w1)
    from emitsD [OF m returned(1)] obtain evs1 where
      "trace w1 = trace w @ evs1" "list_all P evs1" by blast
    moreover from emitsD [OF f returned(2)] obtain evs2 where
      "trace w' = trace w1 @ evs2" "list_all P evs2" by blast
    ultimately show ?thesis by (intro exI [of _ "evs1 @ evs2"]) simp
  qed
qed

lemma emits_thenE: "emits P m \<Longrightarrow> emits P n \<Longrightarrow> emits P (thenE m n)"
  by (simp add: thenE_def emits_bindE)

lemma emits_try_finally: "emits P m \<Longrightarrow> emits P h \<Longrightarrow> emits P (try_finally m h)"
proof (rule emitsI)
  fix w r w'
  assume m: "emits P m" and h: "emits P h" and run: "try_finally m h w = Some (r, w')"
  from run obtain r1 w1 r2 where b: "m w = Some (r1, w1)" and c: "h w1 = Some (r2, w')"
    by (auto simp: try_finally_def split: option.splits sum.splits)
  from emitsD [OF m b] emitsD [OF h c]
  show "\<exists>evs. trace w' = trace w @ evs \<and> list_all P evs"
    by (metis append.assoc list_all_append)
qed

lemma emits_emit: "P (e, Returns PNone) \<Longrightarrow> emits P (emit e)"
  by (auto simp: emits_def emit_def)

lemma emits_logger: "P (Log l s, Returns PNone) \<Longrightarrow> emits P (logger l s)"
  by (simp add: logger_def emits_emit)

lemma emits_call: "(\<And>a. P (e, a)) \<Longrightarrow> emits P (call e)"
  by (auto simp: emits_def call_def Let_def split: list.splits answer.splits)

lemma emits_time_time: "emits P time_time"
  by (simp add: emits_def time_time_def)

lemma emits_time_sleep: "P (Sleep n, Returns PNone) \<Longrightarrow> emits P (time_sleep n)"
  by (auto simp: emits_def time_sleep_def)

lemma emits_advance: "emits P advance"
  by (simp add: emits_def advance_def)

lemma emits_isfile: "emits P (isfile p)"
  by (simp add: emits_def isfile_def)

lemma emits_isdir: "emits P (isdir p)"
  by (simp add: emits_def isdir_def)

lemma emits_read_file: "emits P (read_file p)"
  by (auto simp: emits_def read_file_def split: option.splits)

lemma emits_if: "(c \<Longrightarrow> emits P m) \<Longrightarrow> (\<not> c \<Longrightarrow> emits P n) \<Longrightarrow> emits P (if c then m else n)"
  by simp

lemmas emits_basic = emits_returnE emits_raiseE emits_bindE emits_thenE emits_try_finally
  emits_emit emits_logger emits_call emits_time_time emits_time_sleep emits_advance
  emits_isfile emits_isdir emits_read_file emits_if

lemma emits_get_state: "(\<And>a. P (GetState, a)) \<Longrightarrow> emits P get_state"
  unfolding get_state_def
  by (auto intro!: emits_basic split: pyval.splits)

lemma emits_is_powered_on: "(\<And>a. P (IsPoweredOn, a)) \<Longrightarrow> emits P is_powered_on"
  unfolding is_powered_on_def
  by (auto intro!: emits_basic split: pyval.splits)

lemma emits_play_and_poll:
  "(\<And>x l a. P (PlayMission x l, a)) \<Longrightarrow> P (Sleep 1, Returns PNone) \<Longrightarrow>
   (\<And>a. P (GetState, a)) \<Longrightarrow> emits P (play_and_poll t)"
  unfolding play_and_poll_def
  by (intro emits_basic emits_get_state) auto

lemma emits_run_loop:
  assumes "f \<Longrightarrow> P (Log INFO ''Mission failed by triggering operator question.'', Returns PNone)"
    and "\<And>x l a. P (PlayMission x l, a)" and "P (Sleep 1, Returns PNone)"
    and "\<And>a. P (GetState, a)"
  shows "emits P (run_loop f t ms)"
proof (rule emitsI)
  fix w r w'
  assume "run_loop f t ms w = Some (r, w')"
  then show "\<exists>evs. trace w' = trace w @ evs \<and> list_all P evs"
  proof (induction rule: run_loop_induct)
    case (stop ms w)
    show ?case by simp
  next
    case (abort ms w)
    with assms(1) show ?case by simp
  next
    case (raised ms w e w1)
    from emitsD [OF emits_play_and_poll raised(3)] assms show ?case by blast
  next
    case (step ms w ms1 w1 r w')
    from emitsD [OF emits_play_and_poll step(3)] assms obtain evs1 where
      "trace w1 = trace w @ evs1" "list_all P evs1" by blast
    with step.IH show ?case by (metis append.assoc list_all_append)
  qed
qed

lemma emits_run_mission:
  assumes "f \<Longrightarrow> P (Log INFO ''Mission failed by triggering operator question.'', Returns PNone)"
    and "P (Log INFO ''Running mission'', Returns PNone)"
    and "\<And>x l a. P (PlayMission x l, a)" and "P (Sleep 1, Returns PNone)"
    and "\<And>a. P (GetState, a)"
  shows "emits P (run_mission f t)"
  unfolding run_mission_def
  using assms by (intro emits_basic emits_get_state emits_run_loop) auto

subsection \<open>The polling loop\<close>

lemma new_trace_append: "trace w' = trace w @ evs \<Longrightarrow> new_trace w w' = evs"
  by (simp add: new_trace_def)

lemma polled_append: "polled (xs @ ys) = polled xs @ polled ys"
  by (induction xs rule: polled.induct) auto

lemma plays_append: "plays (xs @ ys) = plays xs + plays ys"
  by (simp add: plays_def)





lemma play_and_poll_round:
  "script w = (dp, Returns v) # (dg, Returns (PState ms1)) # rest \<Longrightarrow>
   play_and_poll t w = Some (Inr ms1,
     w\<lparr>wallet := Suc (wallet w), script := rest,
       trace := trace w @ [(PlayMission (clock w + t) [Suc (wallet w)], Returns v),
         (Sleep 1, Returns PNone), (GetState, Returns (PState ms1))],
       clock := clock w + real dp / 1000 + 1 + real dg / 1000\<rparr>)"
  by (simp add: play_and_poll_def bindE_def thenE_def advance_def time_time_def
      time_sleep_def get_state_def call_def Let_def returnE_def)

lemma run_loop_rounds:
  "script w = rounds_script rs @ rest \<Longrightarrow>
   \<forall>x \<in> set (butlast (ms # map (\<lambda>(dp, v, dg, s). s) rs)). continuing f x \<Longrightarrow>
   \<not> continuing f (last (ms # map (\<lambda>(dp, v, dg, s). s) rs)) \<Longrightarrow>
   \<exists>w'. run_loop f t ms w =
       Some (Inr (status (last (ms # map (\<lambda>(dp, v, dg, s). s) rs))
                  \<in> {STATUS_SUCCESS, STATUS_PAUSED}), w') \<and>
     script w' = rest \<and>
     polled (new_trace w w') = map (\<lambda>(dp, v, dg, s). s) rs \<and>
     plays (new_trace w w') = length rs"
proof (induction rs arbitrary: ms w)
  case Nil
  show ?case
  proof (cases "status ms \<in> {STATUS_NONE, STATUS_RUNNING}")
    case False
    with Nil show ?thesis by (simp add: run_loop_stop new_trace_def plays_def)
  next
    case True
    with Nil show ?thesis
      by (auto simp: continuing_def run_loop_abort new_trace_def plays_def)
  qed
next
  case (Cons r rs)
  obtain dp v dg ms1 where r: "r = (dp, v, dg, ms1)" by (cases r)
  let ?w1 = "w\<lparr>wallet := Suc (wallet w), script := rounds_script rs @ rest,
       trace := trace w @ [(PlayMission (clock w + t) [Suc (wallet w)], Returns v),
         (Sleep 1, Returns PNone), (GetState, Returns (PState ms1))],
       clock := clock w + real dp / 1000 + 1 + real dg / 1000\<rparr>"
  from Cons.prems(1) r have step: "play_and_poll t w = Some (Inr ms1, ?w1)"
    by (simp add: play_and_poll_round)
  from Cons.prems(2) have cont: "continuing f ms" by simp
  then have loop: "run_loop f t ms w = run_loop f t ms1 ?w1"
    by (simp add: continuing_def run_loop_step bindE_def step)
  have "\<exists>w'. run_loop f t ms1 ?w1 =
       Some (Inr (status (last (ms1 # map (\<lambda>(dp, v, dg, s). s) rs))
                  \<in> {STATUS_SUCCESS, STATUS_PAUSED}), w') \<and>
     script w' = rest \<and>
     polled (new_trace ?w1 w') = map (\<lambda>(dp, v, dg, s). s) rs \<and>
     plays (new_trace ?w1 w') = length rs"
    using Cons.prems r by (intro Cons.IH) auto
  then obtain w' where w': "run_loop f t ms1 ?w1 =
       Some (Inr (status (last (ms1 # map (\<lambda>(dp, v, dg, s). s) rs))
                  \<in> {STATUS_SUCCESS, STATUS_PAUSED}), w')"
     "script w' = rest"
     "polled (new_trace ?w1 w') = map (\<lambda>(dp, v, dg, s). s) rs"
     "plays (new_trace ?w1 w') = length rs" by blast
  have "emits (\<lambda>_. True) (run_loop f t ms1)" by (rule emits_run_loop) auto
  from emitsD [OF this w'(1)] obtain evs where evs: "trace w' = trace ?w1 @ evs" by blast
  then have nt: "new_trace ?w1 w' = evs" by (simp add: new_trace_def)
  have nt2: "new_trace w w' = [(PlayMission (clock w + t) [Suc (wallet w)], Returns v),
         (Sleep 1, Returns PNone), (GetState, Returns (PState ms1))] @ evs"
    using evs by (simp add: new_trace_def)
  show ?case
    apply (rule exI [of _ w'])
    using loop w' r nt nt2 by (simp add: plays_def)
qed


lemma run_mission_rounds:
  assumes "script w = (dpoll, Returns (PState ms0)) # rounds_script rs @ rest"
    and "\<forall>x \<in> set (butlast (ms0 # round_states rs)). continuing f x"
    and "\<not> continuing f (last (ms0 # round_states rs))"
  shows "\<exists>w'. run_mission f t w =
       Some (Inr (status (last (ms0 # round_states rs)) \<in> {STATUS_SUCCESS, STATUS_PAUSED}), w') \<and>
     script w' = rest \<and>
     polled (new_trace w w') = ms0 # round_states rs \<and>
     plays (new_trace w w') = length rs"
proof -
  let ?w1 = "w\<lparr>script := rounds_script rs @ rest,
     trace := trace w @ [(Log INFO ''Running mission'', Returns PNone),
       (GetState, Returns (PState ms0))],
     clock := clock w + real dpoll / 1000\<rparr>"
  have start: "run_mission f t w = run_loop f t ms0 ?w1"
    using assms(1)
    by (simp add: run_mission_def thenE_def bindE_def logger_def emit_def get_state_def
        call_def returnE_def)
  from run_loop_rounds [of ?w1 rs rest ms0 f t] assms obtain w' where
    w': "run_loop f t ms0 ?w1 =
       Some (Inr (status (last (ms0 # round_states rs)) \<in> {STATUS_SUCCESS, STATUS_PAUSED}), w')"
     "script w' = rest"
     "polled (new_trace ?w1 w') = round_states rs"
     "plays (new_trace ?w1 w') = length rs"
    unfolding round_states_def by auto
  have "emits (\<lambda>_. True) (run_loop f t ms0)" by (rule emits_run_loop) auto
  from emitsD [OF this w'(1)] obtain evs where evs: "trace w' = trace ?w1 @ evs" by blast
  then have "new_trace ?w1 w' = evs"
    and "new_trace w w' = [(Log INFO ''Running mission'', Returns PNone),
       (GetState, Returns (PState ms0))] @ evs"
    by (simp_all add: new_trace_def)
  with w' start show ?thesis by (auto simp: plays_def)
qed

subsection \<open>Repeating\<close>

lemma logger_logged: "logger l s w = Some (Inr (), logged l s w)"
  by (simp add: logger_def emit_def logged_def)

lemma repeat_mission_start:
  "run_mission f t (logged INFO ''Repeating mission for {} seconds.'' w) = Some (Inr ms, w1) \<Longrightarrow>
   repeat_mission total_time f t w =
     (if \<not> ms then
        Some (Inr False, logged INFO ''Mission failed.''
          (logged INFO ''Elapsed time = {} (out of {})'' w1))
      else
        repeat_loop (clock w) total_time f t ms (clock w1 - clock w)
          (logged INFO ''Elapsed time = {} (out of {})'' w1))"
  by (simp add: repeat_mission_def thenE_def bindE_def logger_logged time_time_def returnE_def
      logged_def)

lemma restart_and_run_returned:
  "restart_mission 3 w = Some (Inr b, w2) \<Longrightarrow> run_mission f t w2 = Some (Inr ms, w3) \<Longrightarrow>
   restart_and_run s f t w =
     Some (Inr (ms, clock w3 - s), logged INFO ''Elapsed time = {} (out of {})'' w3)"
  by (simp add: restart_and_run_def thenE_def bindE_def logger_logged time_time_def returnE_def)

lemma repeat_loop_done:
  "\<not> el < total_time \<Longrightarrow> repeat_loop s total_time f t ms el w = Some (Inr ms, w)"
  by (subst repeat_loop.simps) (simp add: returnE_def)

lemma repeat_loop_again:
  "el < total_time \<Longrightarrow> restart_and_run s f t w = Some (Inr (True, el'), w') \<Longrightarrow>
   repeat_loop s total_time f t ms el w = repeat_loop s total_time f t True el' w'"
  by (subst repeat_loop.simps) simp

lemma repeat_loop_failed:
  "el < total_time \<Longrightarrow> restart_and_run s f t w = Some (Inr (False, el'), w') \<Longrightarrow>
   repeat_loop s total_time f t ms el w = Some (Inr False, logged INFO ''Mission failed.'' w')"
  by (subst repeat_loop.simps) (simp add: thenE_def bindE_def logger_logged returnE_def)

lemma restart_mission_returned:
  "restart_mission t w = Some (Inr b, w') \<Longrightarrow>
   clock w + 1 \<le> clock w' \<and>
   (\<exists>a. trace w' = trace w @ [(Log INFO ''Restarting mission'', Returns PNone),
      (RestartMission (clock w + t) [Suc (wallet w)], a), (Sleep 1, Returns PNone)])"
  by (auto simp: restart_mission_def thenE_def bindE_def logger_def emit_def advance_def
      time_time_def time_sleep_def call_def Let_def returnE_def
      split: list.splits answer.splits)

lemma run_mission_counts:
  assumes "run_mission f t w = Some (r, w')"
  shows "\<exists>evs. trace w' = trace w @ evs \<and> runs evs = 1 \<and> restarts evs = 0"
proof -
  let ?w0 = "w\<lparr>trace := trace w @ [(Log INFO ''Running mission'', Returns PNone)]\<rparr>"
  have rest: "emits (\<lambda>(e, a). e \<noteq> Log INFO ''Running mission'' \<and> \<not> is_restart e)
     (bindE get_state (run_loop f t))"
    by (intro emits_basic emits_get_state emits_run_loop) auto
  from assms have "bindE get_state (run_loop f t) ?w0 = Some (r, w')"
    by (simp add: run_mission_def thenE_def bindE_def logger_def emit_def)
  from emitsD [OF rest this] obtain evs where
    "trace w' = trace ?w0 @ evs"
    "list_all (\<lambda>(e, a). e \<noteq> Log INFO ''Running mission'' \<and> \<not> is_restart e) evs" by blast
  then have "trace w' = trace w @ (Log INFO ''Running mission'', Returns PNone) # evs"
    and "filter (\<lambda>(e, a). e = Log INFO ''Running mission'') evs = []"
    and "filter (\<lambda>(e, a). is_restart e) evs = []"
    by (auto simp: filter_empty_conv list_all_iff)
  then show ?thesis
    by (intro exI [of _ "(Log INFO ''Running mission'', Returns PNone) # evs"])
       (simp add: runs_def restarts_def)
qed

subsection \<open>Runs that differ in the status a restart returns\<close>

lemma status_blind_refl [simp]: "status_blind a a"
  by (simp add: status_blind_def)

lemma traces_alike_snoc:
  "traces_alike xs ys \<Longrightarrow> status_blind a b \<Longrightarrow> traces_alike (xs @ [(e, a)]) (ys @ [(e, b)])"
  by (simp add: traces_alike_def list_all2_appendI)

lemma alike_logged: "alike v v' \<Longrightarrow> alike (logged l s v) (logged l s v')"
  by (simp add: alike_def logged_def traces_alike_snoc)

lemma agree_cases:
  assumes "agree R x y"
  obtains (none) "x = None" "y = None"
    | (raised) e v v' where "x = Some (Inl e, v)" "y = Some (Inl e, v')" "alike v v'"
    | (returned) a b v v' where "x = Some (Inr a, v)" "y = Some (Inr b, v')" "R a b" "alike v v'"
  using assms unfolding agree_def by blast

lemma agree_bindE:
  assumes "agree R (m w) (m' w')"
    and "\<And>a b v v'. R a b \<Longrightarrow> alike v v' \<Longrightarrow> agree S (f a v) (f' b v')"
  shows "agree S (bindE m f w) (bindE m' f' w')"
  using assms(1)
proof (cases rule: agree_cases)
  case none
  then show ?thesis by (simp add: agree_def bindE_def)
next
  case (raised e v v')
  then show ?thesis by (simp add: agree_def bindE_def)
next
  case (returned a b v v')
  with assms(2) [OF returned(3,4)] show ?thesis by (simp add: bindE_def)
qed

lemma agree_bindE_eq:
  assumes "agree (=) (m w) (m w')"
    and "\<And>a v v'. alike v v' \<Longrightarrow> agree S (f a v) (f a v')"
  shows "agree S (bindE m f w) (bindE m f w')"
  using assms by (auto intro: agree_bindE)

lemma agree_thenE:
  assumes "agree R (m w) (m w')"
    and "\<And>v v'. alike v v' \<Longrightarrow> agree S (n v) (n v')"
  shows "agree S (thenE m n w) (thenE m n w')"
  unfolding thenE_def using assms by (auto intro: agree_bindE)

lemma agree_thenE2:
  assumes "agree R (m w) (m' w')"
    and "\<And>v v'. alike v v' \<Longrightarrow> agree S (n v) (n' v')"
  shows "agree S (thenE m n w) (thenE m' n' w')"
  unfolding thenE_def using assms by (auto intro: agree_bindE)

lemma agree_returnE: "R a b \<Longrightarrow> alike w w' \<Longrightarrow> agree R (returnE a w) (returnE b w')"
  by (simp add: agree_def returnE_def)

lemma agree_raiseE: "alike w w' \<Longrightarrow> agree R (raiseE e w) (raiseE e w')"
  by (simp add: agree_def raiseE_def)

lemma agree_call: "alike w w' \<Longrightarrow> agree value_blind (call e w) (call e w')"
proof -
  assume a: "alike w w'"
  then have sc: "list_all2 (\<lambda>(d, a) (d', b). d = d' \<and> status_blind a b) (script w) (script w')"
    by (simp add: alike_def scripts_alike_def)
  show ?thesis
  proof (cases "script w")
    case Nil
    with sc have "script w' = []" by simp
    with Nil show ?thesis by (simp add: agree_def call_def)
  next
    case (Cons x xs)
    with sc obtain y ys where y: "script w' = y # ys"
      and xy: "(\<lambda>(d, a) (d', b). d = d' \<and> status_blind a b) x y"
      and rest: "list_all2 (\<lambda>(d, a) (d', b). d = d' \<and> status_blind a b) xs ys"
      by (auto simp: list_all2_Cons1)
    obtain d p where x: "x = (d, p)" by (cases x)
    obtain d' q where yq: "y = (d', q)" by (cases y)
    from xy x yq have dd: "d' = d" and pq: "status_blind p q" by auto
    from pq consider "p = q" | s s' where "p = Returns (PStatus s)" "q = Returns (PStatus s')"
      by (auto simp: status_blind_def)
    then show ?thesis
    proof cases
      case 1
      with a Cons y x yq dd rest show ?thesis
        by (cases q)
           (auto simp: agree_def call_def alike_def scripts_alike_def value_blind_def
             intro!: traces_alike_snoc)
    next
      case 2
      with a Cons y x yq dd rest pq show ?thesis
        by (auto simp: agree_def call_def alike_def scripts_alike_def value_blind_def
             intro!: traces_alike_snoc)
    qed
  qed
qed

lemma agree_logger: "alike w w' \<Longrightarrow> agree (=) (logger l s w) (logger l s w')"
  by (simp add: logger_logged agree_def alike_logged)

lemma agree_time_sleep: "alike w w' \<Longrightarrow> agree (=) (time_sleep n w) (time_sleep n w')"
  by (auto simp: agree_def alike_def time_sleep_def intro!: traces_alike_snoc)

lemma agree_time_time: "alike w w' \<Longrightarrow> agree (=) (time_time w) (time_time w')"
  by (auto simp: agree_def alike_def time_time_def)

lemma agree_advance: "alike w w' \<Longrightarrow> agree (=) (advance w) (advance w')"
  by (auto simp: agree_def alike_def advance_def)

lemma agree_get_state: "alike w w' \<Longrightarrow> agree (=) (get_state w) (get_state w')"
  unfolding get_state_def
  by (rule agree_bindE [OF agree_call])
     (auto simp: value_blind_def intro: agree_returnE agree_raiseE split: pyval.splits)

lemma agree_play_and_poll:
  "alike w w' \<Longrightarrow> agree (=) (play_and_poll t w) (play_and_poll t w')"
  unfolding play_and_poll_def
  by (intro agree_bindE_eq [OF agree_advance] agree_bindE_eq [OF agree_time_time]
      agree_thenE [OF agree_call] agree_thenE [OF agree_time_sleep] agree_get_state)

lemma agree_run_loop:
  "alike w w' \<Longrightarrow> agree (=) (run_loop f t ms w) (run_loop f t ms w')"
proof (induction "length (script w)" arbitrary: ms w w' rule: less_induct)
  case less
  show ?case
  proof (cases "status ms \<in> {STATUS_NONE, STATUS_RUNNING}")
    case False
    with less.prems show ?thesis by (simp add: run_loop_stop agree_def)
  next
    case running: True
    show ?thesis
    proof (cases "questions ms \<noteq> [] \<and> f")
      case True
      with running less.prems show ?thesis
        by (auto simp: run_loop_abort agree_def alike_def intro!: traces_alike_snoc)
    next
      case False
      have "agree (=) (bindE (play_and_poll t) (run_loop f t) w)
              (bindE (play_and_poll t) (run_loop f t) w')"
      proof -
        from agree_play_and_poll [OF less.prems, of t]
        consider "play_and_poll t w = None" "play_and_poll t w' = None"
          | e v v' where "play_and_poll t w = Some (Inl e, v)"
              "play_and_poll t w' = Some (Inl e, v')" "alike v v'"
          | a v v' where "play_and_poll t w = Some (Inr a, v)"
              "play_and_poll t w' = Some (Inr a, v')" "alike v v'"
          unfolding agree_def by auto
        then show ?thesis
        proof cases
          case 1
          then show ?thesis by (simp add: agree_def bindE_def)
        next
          case 2
          then show ?thesis by (simp add: agree_def bindE_def)
        next
          case 3
          from play_and_poll_script_less [OF 3(1)] 3(3)
          have "agree (=) (run_loop f t a v) (run_loop f t a v')" by (rule less.hyps)
          with 3 show ?thesis by (simp add: bindE_def)
        qed
      qed
      with running False show ?thesis by (simp add: run_loop_step)
    qed
  qed
qed

lemma agree_run_mission:
  "alike w w' \<Longrightarrow> agree (=) (run_mission f t w) (run_mission f t w')"
  unfolding run_mission_def
  by (intro agree_thenE [OF agree_logger] agree_bindE_eq [OF agree_get_state] agree_run_loop)

lemma agree_restart_mission:
  "alike w w' \<Longrightarrow> agree (\<lambda>_ _. True) (restart_mission t w) (restart_mission t w')"
  unfolding restart_mission_def
  by (intro agree_thenE [OF agree_logger] agree_bindE_eq [OF agree_advance]
      agree_bindE_eq [OF agree_time_time] agree_bindE [OF agree_call]
      agree_thenE2 [OF agree_time_sleep] agree_returnE)
    auto

lemma agree_restart_and_run:
  "alike w w' \<Longrightarrow> agree (=) (restart_and_run s f t w) (restart_and_run s f t w')"
  unfolding restart_and_run_def
  by (intro agree_thenE [OF agree_restart_mission] agree_bindE_eq [OF agree_run_mission]
      agree_bindE_eq [OF agree_time_time] agree_thenE [OF agree_logger] agree_returnE)
    auto

lemma agree_repeat_loop:
  "alike w w' \<Longrightarrow>
   agree (=) (repeat_loop s total_time f t ms el w) (repeat_loop s total_time f t ms el w')"
proof (induction "length (script w)" arbitrary: ms el w w' rule: less_induct)
  case less
  show ?case
  proof (cases "el < total_time")
    case False
    with less.prems show ?thesis by (simp add: repeat_loop_done agree_def)
  next
    case True
    from agree_restart_and_run [OF less.prems, of s f t]
    consider "restart_and_run s f t w = None" "restart_and_run s f t w' = None"
      | e v v' where "restart_and_run s f t w = Some (Inl e, v)"
          "restart_and_run s f t w' = Some (Inl e, v')" "alike v v'"
      | a v v' where "restart_and_run s f t w = Some (Inr a, v)"
          "restart_and_run s f t w' = Some (Inr a, v')" "alike v v'"
      unfolding agree_def by auto
    then show ?thesis
    proof cases
      case 1
      with True show ?thesis by (subst (1 2) repeat_loop.simps) (simp add: agree_def)
    next
      case 2
      with True show ?thesis by (subst (1 2) repeat_loop.simps) (simp add: agree_def)
    next
      case 3
      obtain ok el' where a: "a = (ok, el')" by (cases a)
      show ?thesis
      proof (cases ok)
        case False
        with True 3 a show ?thesis
          by (auto simp: repeat_loop_failed agree_def alike_logged)
      next
        case ok: True
        from restart_and_run_script_less [OF 3(1)] 3(3)
        have "agree (=) (repeat_loop s total_time f t True el' v)
           (repeat_loop s total_time f t True el' v')" by (rule less.hyps)
        with True 3 a ok show ?thesis by (simp add: repeat_loop_again)
      qed
    qed
  qed
qed

lemma agree_repeat_mission:
  "alike w w' \<Longrightarrow>
   agree (=) (repeat_mission total_time f t w) (repeat_mission total_time f t w')"
  unfolding repeat_mission_def
  by (intro agree_thenE [OF agree_logger] agree_bindE_eq [OF agree_time_time]
      agree_bindE_eq [OF agree_run_mission])
     (auto intro!: agree_thenE [OF agree_logger] agree_returnE agree_repeat_loop)

lemma traces_alike_refl: "traces_alike xs xs"
  by (simp add: traces_alike_def list_all2_refl split_beta)

lemma traces_alike_calls: "traces_alike xs ys \<Longrightarrow> map fst xs = map fst ys"
  unfolding traces_alike_def
  by (induction xs ys rule: list_all2_induct) auto

subsection \<open>The script as a whole\<close>

lemma emits_mono: "emits P m \<Longrightarrow> (\<And>x. P x \<Longrightarrow> Q x) \<Longrightarrow> emits Q m"
  unfolding emits_def by (meson list.pred_mono_strong)

lemma emits_restart_mission:
  assumes "P (Log INFO ''Restarting mission'', Returns PNone)"
    and "\<And>x l a. P (RestartMission x l, a)" and "P (Sleep 1, Returns PNone)"
  shows "emits P (restart_mission t)"
  unfolding restart_mission_def
  using assms by (intro emits_basic) auto

lemma emits_restart_and_run:
  assumes "f \<Longrightarrow> P (Log INFO ''Mission failed by triggering operator question.'', Returns PNone)"
    and "P (Log INFO ''Running mission'', Returns PNone)"
    and "\<And>x l a. P (PlayMission x l, a)" and "P (Sleep 1, Returns PNone)"
    and "\<And>a. P (GetState, a)"
    and "P (Log INFO ''Restarting mission'', Returns PNone)"
    and "\<And>x l a. P (RestartMission x l, a)"
    and "P (Log INFO ''Elapsed time = {} (out of {})'', Returns PNone)"
  shows "emits P (restart_and_run s f t)"
  unfolding restart_and_run_def
  using assms by (intro emits_basic emits_restart_mission emits_run_mission) auto

lemma emits_repeat_loop:
  assumes "f \<Longrightarrow> P (Log INFO ''Mission failed by triggering operator question.'', Returns PNone)"
    and "P (Log INFO ''Running mission'', Returns PNone)"
    and "\<And>x l a. P (PlayMission x l, a)" and "P (Sleep 1, Returns PNone)"
    and "\<And>a. P (GetState, a)"
    and "P (Log INFO ''Restarting mission'', Returns PNone)"
    and "\<And>x l a. P (RestartMission x l, a)"
    and "P (Log INFO ''Elapsed time = {} (out of {})'', Returns PNone)"
    and "P (Log INFO ''Mission failed.'', Returns PNone)"
  shows "emits P (repeat_loop s total_time f t ms el)"
proof (rule emitsI)
  fix w r w'
  have body: "emits P (restart_and_run s f t)"
    using assms by (intro emits_restart_and_run) auto
  assume "repeat_loop s total_time f t ms el w = Some (r, w')"
  then show "\<exists>evs. trace w' = trace w @ evs \<and> list_all P evs"
  proof (induction "length (script w)" arbitrary: ms el w rule: less_induct)
    case less
    show ?case
    proof (cases "el < total_time")
      case False
      with less.prems show ?thesis by (simp add: repeat_loop_done)
    next
      case True
      show ?thesis
      proof (cases "restart_and_run s f t w")
        case None
        with True less.prems show ?thesis by (subst (asm) repeat_loop.simps) simp
      next
        case (Some x)
        obtain r1 w1 where x: "x = (r1, w1)" by (cases x)
        from emitsD [OF body] Some x obtain evs1 where
          evs1: "trace w1 = trace w @ evs1" "list_all P evs1" by blast
        show ?thesis
        proof (cases r1)
          case (Inl e)
          with True Some x less.prems evs1 show ?thesis
            by (subst (asm) repeat_loop.simps) auto
        next
          case (Inr p)
          obtain ok el' where p: "p = (ok, el')" by (cases p)
          show ?thesis
          proof (cases ok)
            case False
            with True Some x Inr p less.prems
            have "w' = logged INFO ''Mission failed.'' w1"
              by (simp add: repeat_loop_failed)
            with evs1 assms(9) show ?thesis by (simp add: logged_def)
          next
            case True
            with \<open>el < total_time\<close> Some x Inr p less.prems
            have "repeat_loop s total_time f t True el' w1 = Some (r, w')"
              by (simp add: repeat_loop_again)
            from less.hyps [OF _ this] restart_and_run_script_less Some x
            obtain evs2 where "trace w' = trace w1 @ evs2" "list_all P evs2" by blast
            with evs1 show ?thesis by (intro exI [of _ "evs1 @ evs2"]) simp
          qed
        qed
      qed
    qed
  qed
qed

lemma emits_repeat_mission:
  assumes "f \<Longrightarrow> P (Log INFO ''Mission failed by triggering operator question.'', Returns PNone)"
    and "P (Log INFO ''Running mission'', Returns PNone)"
    and "\<And>x l a. P (PlayMission x l, a)" and "P (Sleep 1, Returns PNone)"
    and "\<And>a. P (GetState, a)"
    and "P (Log INFO ''Restarting mission'', Returns PNone)"
    and "\<And>x l a. P (RestartMission x l, a)"
    and "P (Log INFO ''Elapsed time = {} (out of {})'', Returns PNone)"
    and "P (Log INFO ''Mission failed.'', Returns PNone)"
    and "P (Log INFO ''Repeating mission for {} seconds.'', Returns PNone)"
  shows "emits P (repeat_mission total_time f t)"
  unfolding repeat_mission_def
  using assms by (intro emits_basic emits_run_mission emits_repeat_loop) auto

lemma emits_countdown: "P (Sleep 1, Returns PNone) \<Longrightarrow> emits P (countdown n)"
  by (induction n) (auto intro!: emits_basic)

lemma emits_load_waypoint_snapshots:
  "(\<And>x. P (Log INFO (''Loading waypoint snapshot from '' @ x), Returns PNone)) \<Longrightarrow>
   emits P (load_waypoint_snapshots path wps d)"
  by (induction wps arbitrary: d)
     (auto simp: Let_def intro!: emits_basic split: content.splits)

lemma emits_load_edge_snapshots:
  "(\<And>x. P (Log INFO (''Loading edge snapshot from '' @ x), Returns PNone)) \<Longrightarrow>
   emits P (load_edge_snapshots path es d)"
  by (induction es arbitrary: d)
     (auto simp: Let_def intro!: emits_basic split: content.splits)

lemma emits_upload_waypoint_snapshots:
  "(\<And>s a. P (UploadWaypointSnapshot s l, a)) \<Longrightarrow> P (Log INFO ''Uploaded {}'', Returns PNone) \<Longrightarrow>
   emits P (upload_waypoint_snapshots l ss)"
  by (induction ss) (auto intro!: emits_basic)

lemma emits_upload_edge_snapshots:
  "(\<And>s a. P (UploadEdgeSnapshot s l, a)) \<Longrightarrow> P (Log INFO ''Uploaded {}'', Returns PNone) \<Longrightarrow>
   emits P (upload_edge_snapshots l ss)"
  by (induction ss) (auto intro!: emits_basic)

lemmas emits_loops = emits_run_mission emits_repeat_mission emits_countdown
  emits_load_waypoint_snapshots emits_load_edge_snapshots
  emits_upload_waypoint_snapshots emits_upload_edge_snapshots
  emits_get_state emits_is_powered_on

lemma emits_release: "emits (\<lambda>(e, a). \<not> graph_nav_call e \<and> \<not> is_load_mission e \<and> e \<noteq> question_abort) (release l)"
  unfolding release_def ensure_power_off_def
  by (auto simp: question_abort_def intro!: emits_basic emits_loops)

lemma emits_acquire: "(\<And>a. P (AcquireLease, a)) \<Longrightarrow> emits P acquire"
  unfolding acquire_def
  by (rule emits_bindE)
     (auto simp: emits_def returnE_def raiseE_def intro: emitsD [OF emits_call]
       split: pyval.splits)

lemma emits_resolve_mission_file: "emits P (resolve_mission_file a)"
  by (simp add: resolve_mission_file_def emits_returnE emits_raiseE)

lemma emits_startup:
  "emits (\<lambda>(e, a). \<not> graph_nav_call e \<and> \<not> is_load_mission e \<and> e \<noteq> question_abort
    \<and> \<not> is_return_lease e) (startup a)"
  unfolding startup_def init_robot_def
  by (intro emits_basic emits_acquire emits_resolve_mission_file)
     (auto simp: question_abort_def)

lemma emits_verify_estop:
  "(\<And>a. P (EnsureClient EstopService, a)) \<Longrightarrow> (\<And>a. P (EstopGetStatus, a)) \<Longrightarrow>
   P (Log ERROR estop_message, Returns PNone) \<Longrightarrow> emits P verify_estop"
  unfolding verify_estop_def
  by (auto intro!: emits_basic split: pyval.splits)

lemma emits_ensure_power_on:
  "(\<And>a. P (IsPoweredOn, a)) \<Longrightarrow> (\<And>a. P (PowerOn 20, a)) \<Longrightarrow>
   P (Log INFO ''Powering on robot...'', Returns PNone) \<Longrightarrow>
   P (Log INFO ''Robot powered on.'', Returns PNone) \<Longrightarrow>
   P (Log ERROR ''Error powering on robot.'', Returns PNone) \<Longrightarrow>
   emits P ensure_power_on"
  unfolding ensure_power_on_def
  by (auto intro!: emits_basic emits_loops)

lemma emits_upload_mission:
  "(\<And>x. P (Log INFO (''Loading mission from '' @ x), Returns PNone)) \<Longrightarrow>
   P (Log INFO ''Uploading the mission to the robot...'', Returns PNone) \<Longrightarrow>
   P (Log INFO ''Uploaded mission to robot.'', Returns PNone) \<Longrightarrow>
   (\<And>m a. P (LoadMission m [l], a)) \<Longrightarrow> emits P (upload_mission f l)"
  unfolding upload_mission_def
  by (auto intro!: emits_basic split: content.splits)

lemma emits_load_graph:
  "(\<And>x. P (Log INFO (''Loading graph from '' @ x), Returns PNone)) \<Longrightarrow>
   P (Log INFO ''Loaded graph has {} waypoints and {} edges'', Returns PNone) \<Longrightarrow>
   emits P (load_graph path)"
  unfolding load_graph_def
  by (auto simp: Let_def intro!: emits_basic split: content.splits)

lemma emits_upload_graph_and_snapshots:
  "emits (\<lambda>(e, a). e \<noteq> question_abort \<and> \<not> is_return_lease e)
     (upload_graph_and_snapshots l path)"
  unfolding upload_graph_and_snapshots_def
  by (intro emits_basic emits_loops emits_load_graph) (auto simp: question_abort_def)

lemma emits_load_map:
  "emits (\<lambda>(e, a). e \<noteq> question_abort \<and> \<not> is_return_lease e) (load_map l d)"
  unfolding load_map_def
  by (cases d) (auto simp: question_abort_def
      intro!: emits_basic emits_upload_graph_and_snapshots [unfolded question_abort_def])

lemma emits_init_clients:
  "emits (body_ok dml foq) (init_clients l mf d dml)"
proof -
  have "emits (body_ok dml foq) (if dml then load_map l d else returnE ())"
    by (auto simp: body_ok_def intro: emits_returnE emits_mono [OF emits_load_map])
  then show ?thesis
    unfolding init_clients_def
    by (intro emits_basic emits_upload_mission) (auto simp: body_ok_def question_abort_def)
qed

lemma emits_mission_body:
  "emits (body_ok dml foq) (mission_body a mf dml foq l)"
  unfolding mission_body_def
  by (intro emits_basic emits_init_clients emits_verify_estop emits_ensure_power_on
      emits_loops)
     (auto simp: body_ok_def question_abort_def estop_message_def)

lemma emits_with_lease_keep_alive:
  "emits P m \<Longrightarrow> P (KeepAliveEnter, Returns PNone) \<Longrightarrow> P (KeepAliveExit, Returns PNone) \<Longrightarrow>
   emits P (with_lease_keep_alive m)"
  unfolding with_lease_keep_alive_def by (intro emits_basic) auto

lemma emits_guarded_body:
  "emits (body_ok dml foq) (with_lease_keep_alive (mission_body a mf dml foq l))"
  by (intro emits_with_lease_keep_alive emits_mission_body)
     (auto simp: body_ok_def question_abort_def)

lemma emits_replay: "emits (main_ok dml foq) (replay a mf dml foq l)"
  unfolding replay_def
  by (intro emits_basic emits_mono [OF emits_guarded_body] emits_mono [OF emits_release])
     (auto simp: main_ok_def body_ok_def)

lemma emits_main:
  "emits (main_ok (map_directory a \<noteq> None) (map_directory a \<noteq> None)) (main a)"
  unfolding main_def Let_def
  by (intro emits_basic emits_mono [OF emits_startup])
     (auto simp: main_ok_def question_abort_def intro!: emits_basic emits_replay [unfolded main_ok_def question_abort_def]
       split: option.splits)





lemma emits_ensure_power_off:
  "emits (\<lambda>(e, a). \<not> is_return_lease e) ensure_power_off"
  unfolding ensure_power_off_def
  by (auto intro!: emits_basic emits_loops)

lemma release_returns_lease:
  assumes "release l w1 = Some (r, w')" and "ensure_power_off w1 = Some (Inr b, w2)"
  shows "\<exists>x. trace w' = trace w2 @
     [(Log INFO ''Returning lease...'', Returns PNone), (ReturnLease l, x)]"
  using assms
  by (auto simp: release_def bindE_def thenE_def call_def Let_def returnE_def logger_def
      emit_def split: list.splits answer.splits)

lemma release_raised:
  assumes "release l w1 = Some (r, w')" and "\<And>b w2. ensure_power_off w1 \<noteq> Some (Inr b, w2)"
  shows "\<exists>e. ensure_power_off w1 = Some (Inl e, w') \<and> r = Inl e"
  using assms
  by (auto simp: release_def elim!: bindE_SomeE)

lemma replay_returns_lease_once:
  assumes "replay a mf dml foq l w = Some (r, w')"
  shows "\<exists>r1 w1. with_lease_keep_alive (mission_body a mf dml foq l) w = Some (r1, w1) \<and>
    returned_leases (new_trace w w') =
      (case ensure_power_off w1 of Some (Inr b, w2) \<Rightarrow> 1 | _ \<Rightarrow> 0)"
proof -
  from assms obtain r1 w1 r2 where
    body: "with_lease_keep_alive (mission_body a mf dml foq l) w = Some (r1, w1)" and
    rel: "release l w1 = Some (r2, w')"
    by (auto simp: replay_def try_finally_def split: option.splits sum.splits)
  from emitsD [OF emits_guarded_body body] obtain evs1 where
    evs1: "trace w1 = trace w @ evs1" "list_all (body_ok dml foq) evs1" by blast
  then have none1: "filter (\<lambda>(e, a). is_return_lease e) evs1 = []"
    by (auto simp: filter_empty_conv list_all_iff body_ok_def)
  have "returned_leases (new_trace w w') =
      (case ensure_power_off w1 of Some (Inr b, w2) \<Rightarrow> 1 | _ \<Rightarrow> 0)"
  proof (cases "\<exists>b w2. ensure_power_off w1 = Some (Inr b, w2)")
    case True
    then obtain b w2 where off: "ensure_power_off w1 = Some (Inr b, w2)" by blast
    from emitsD [OF emits_ensure_power_off off] obtain evs2 where
      evs2: "trace w2 = trace w1 @ evs2" "list_all (\<lambda>(e, a). \<not> is_return_lease e) evs2" by blast
    then have none2: "filter (\<lambda>(e, a). is_return_lease e) evs2 = []"
      by (auto simp: filter_empty_conv list_all_iff)
    from release_returns_lease [OF rel off] obtain x where
      "trace w' = trace w2 @
        [(Log INFO ''Returning lease...'', Returns PNone), (ReturnLease l, x)]" by blast
    with evs1 evs2 none1 none2 off show ?thesis
      by (simp add: returned_leases_def new_trace_def)
  next
    case False
    with release_raised [OF rel] obtain e where
      off: "ensure_power_off w1 = Some (Inl e, w')" by blast
    from emitsD [OF emits_ensure_power_off off] obtain evs2 where
      evs2: "trace w' = trace w1 @ evs2" "list_all (\<lambda>(e, a). \<not> is_return_lease e) evs2" by blast
    then have none2: "filter (\<lambda>(e, a). is_return_lease e) evs2 = []"
      by (auto simp: filter_empty_conv list_all_iff)
    with evs1 evs2 none1 off show ?thesis
      by (simp add: returned_leases_def new_trace_def)
  qed
  with body show ?thesis by blast
qed

lemmas run_mission_eval =
  initial_world_def run_mission_def thenE_def bindE_def logger_def emit_def
  get_state_def call_def returnE_def raiseE_def run_loop.simps play_and_poll_def advance_def
  time_time_def time_sleep_def running_def asking_def paused_def

lemma countdown_numeral:
  "countdown (numeral k) = thenE (time_sleep 1) (countdown (pred_numeral k))"
  by (simp add: numeral_eq_Suc)

lemmas main_eval = countdown_numeral run_mission_eval main_def startup_def resolve_mission_file_def falsy_def
  init_robot_def acquire_def replay_def with_lease_keep_alive_def try_finally_def
  mission_body_def init_clients_def isfile_def upload_mission_def read_file_def
  verify_estop_def ensure_power_on_def is_powered_on_def release_def ensure_power_off_def
  mission_only_def mission_disk_def startup_answers_def preflight_answers_def
  asked_run_answers_def release_answers_def full_run_def succeeded_def
  new_trace_def question_abort_def returned_leases_def

section \<open>Properties\<close>

subsection \<open>Powering on\<close>

text \<open>
  C9. If the robot reports that it is already powered on, \<^verbatim>\<open>ensure_power_on\<close> returns
  true at once: the only call it makes is the query \<^verbatim>\<open>is_powered_on\<close>, so no power-on
  command is issued.
\<close>

theorem ensure_power_on_already_on:
  "script w = (d, Returns (PBool True)) # rest \<Longrightarrow>
   ensure_power_on w =
     Some (Inr True, w\<lparr>script := rest,
                       trace := trace w @ [(IsPoweredOn, Returns (PBool True))],
                       clock := clock w + real d / 1000\<rparr>)"
  by (simp add: ensure_power_on_def is_powered_on_def bindE_def call_def returnE_def)

theorem ensure_power_on_already_on_witness:
  "script (initial_world Map.empty {} [(0, Returns (PBool True))])
     = (0, Returns (PBool True)) # [] \<and>
   ensure_power_on (initial_world Map.empty {} [(0, Returns (PBool True))]) =
     Some (Inr True,
       \<lparr>files = Map.empty, dirs = {}, script = [],
        trace = [(IsPoweredOn, Returns (PBool True))], clock = 0, wallet = 0\<rparr>)"
  using ensure_power_on_already_on
    [of "initial_world Map.empty {} [(0, Returns (PBool True))]" 0 "[]"]
  by (simp add: initial_world_def)

subsection \<open>A single run\<close>





subsection \<open>Operator questions\<close>

text \<open>
  C7, as the script has it. The check for pending questions stands inside the loop, so it
  is made on a poll that reports none or running. With \<^verbatim>\<open>fail_on_question\<close> set: when
  such a poll reports a pending question, the loop logs the failure and returns false, and
  does nothing else (no play-mission call for that poll); the value false is a result, not
  an exception. For the run as a whole: when the polls before let the loop go on and then
  one reports none or running with a pending question, \<^verbatim>\<open>run_mission\<close> returns false at
  that poll, with one play-mission call for each earlier poll and none for this one.
\<close>

theorem run_mission_question_abort:
  "(status ms \<in> {STATUS_NONE, STATUS_RUNNING} \<and> questions ms \<noteq> [] \<longrightarrow>
    run_loop True t ms w =
      Some (Inr False, w\<lparr>trace := trace w @
        [(Log INFO ''Mission failed by triggering operator question.'', Returns PNone)]\<rparr>)) \<and>
   (script w = (dpoll, Returns (PState ms0)) # rounds_script rs @ rest \<and>
    (\<forall>x \<in> set (butlast (ms0 # round_states rs)). continuing True x) \<and>
    status (last (ms0 # round_states rs)) \<in> {STATUS_NONE, STATUS_RUNNING} \<and>
    questions (last (ms0 # round_states rs)) \<noteq> [] \<longrightarrow>
    (\<exists>w'. run_mission True t w = Some (Inr False, w') \<and>
       script w' = rest \<and>
       polled (new_trace w w') = ms0 # round_states rs \<and>
       plays (new_trace w w') = length rs))"
proof (intro conjI impI)
  assume "status ms \<in> {STATUS_NONE, STATUS_RUNNING} \<and> questions ms \<noteq> []"
  then show "run_loop True t ms w =
      Some (Inr False, w\<lparr>trace := trace w @
        [(Log INFO ''Mission failed by triggering operator question.'', Returns PNone)]\<rparr>)"
    by (simp add: run_loop_abort)
next
  assume a: "script w = (dpoll, Returns (PState ms0)) # rounds_script rs @ rest \<and>
    (\<forall>x \<in> set (butlast (ms0 # round_states rs)). continuing True x) \<and>
    status (last (ms0 # round_states rs)) \<in> {STATUS_NONE, STATUS_RUNNING} \<and>
    questions (last (ms0 # round_states rs)) \<noteq> []"
  then have stop: "\<not> continuing True (last (ms0 # round_states rs))"
    and no: "status (last (ms0 # round_states rs)) \<notin> {STATUS_SUCCESS, STATUS_PAUSED}"
    by (auto simp: continuing_def)
  from a stop have "\<exists>w'. run_mission True t w =
       Some (Inr (status (last (ms0 # round_states rs)) \<in> {STATUS_SUCCESS, STATUS_PAUSED}), w') \<and>
     script w' = rest \<and>
     polled (new_trace w w') = ms0 # round_states rs \<and>
     plays (new_trace w w') = length rs"
    by (intro run_mission_rounds) auto
  with no show "\<exists>w'. run_mission True t w = Some (Inr False, w') \<and>
       script w' = rest \<and>
       polled (new_trace w w') = ms0 # round_states rs \<and>
       plays (new_trace w w') = length rs"
    by auto
qed

theorem run_mission_question_abort_witness:
  "run_loop True 3 asking (initial_world Map.empty {} []) =
     Some (Inr False,
       \<lparr>files = Map.empty, dirs = {}, script = [],
        trace = [(Log INFO ''Mission failed by triggering operator question.'', Returns PNone)],
        clock = 0, wallet = 0\<rparr>) \<and>
   (\<exists>w'. run_mission True 3
       (initial_world Map.empty {}
          [(0, Returns (PState running)), (0, Returns PNone), (0, Returns (PState asking)),
           (0, Returns PNone)]) = Some (Inr False, w') \<and>
      script w' = [(0, Returns PNone)] \<and>
      polled (new_trace
        (initial_world Map.empty {}
          [(0, Returns (PState running)), (0, Returns PNone), (0, Returns (PState asking)),
           (0, Returns PNone)]) w') = [running, asking] \<and>
      plays (new_trace
        (initial_world Map.empty {}
          [(0, Returns (PState running)), (0, Returns PNone), (0, Returns (PState asking)),
           (0, Returns PNone)]) w') = 1)"
  using run_mission_question_abort
    [where ms = asking and t = 3 and w = "initial_world Map.empty {} []"]
    run_mission_question_abort
    [where t = 3 and w = "initial_world Map.empty {}
          [(0, Returns (PState running)), (0, Returns PNone), (0, Returns (PState asking)),
           (0, Returns PNone)]" and dpoll = 0 and ms0 = running
       and rs = "[(0, PNone, 0, asking)]" and rest = "[(0, Returns PNone)]"]
  by (simp add: initial_world_def asking_def running_def continuing_def round_states_def)

text \<open>
  The claim as it was stated does not ask for the status of the poll. A poll that reports
  a pending question together with the status success ends the loop, and the run returns
  true.
\<close>

theorem run_mission_question_counterexample:
  "run_mission True 3
     (initial_world Map.empty {}
        [(0, Returns (PState \<lparr>status = STATUS_SUCCESS, questions = [''Continue?'']\<rparr>))]) =
   Some (Inr True,
     \<lparr>files = Map.empty, dirs = {}, script = [],
      trace = [(Log INFO ''Running mission'', Returns PNone),
        (GetState,
         Returns (PState \<lparr>status = STATUS_SUCCESS, questions = [''Continue?'']\<rparr>))],
      clock = 0, wallet = 0\<rparr>)"
  by (simp add: run_mission_eval)

subsection \<open>Repeating the mission\<close>

lemmas repeat_mission_eval =
  run_mission_eval repeat_mission_def repeat_loop.simps restart_and_run_def restart_mission_def
  three_runs_def four_second_run_def three_short_runs_def one_turn_run_def
  succeeded_def failed_def runs_def restarts_def new_trace_def logged_def

text \<open>
  C5. When the first run of \<^verbatim>\<open>repeat_mission\<close> fails (the call of \<^verbatim>\<open>run_mission\<close>, made
  after the first log line, returns false), \<^verbatim>\<open>repeat_mission\<close> logs the elapsed time and
  the failure and returns false; from its start to its end no restart-mission call is made.
\<close>

theorem repeat_mission_first_run_fails:
  "run_mission f t (logged INFO ''Repeating mission for {} seconds.'' w) = Some (Inr False, w1) \<Longrightarrow>
   repeat_mission total_time f t w =
     Some (Inr False, logged INFO ''Mission failed.''
       (logged INFO ''Elapsed time = {} (out of {})'' w1)) \<and>
   restarts (new_trace w (logged INFO ''Mission failed.''
       (logged INFO ''Elapsed time = {} (out of {})'' w1))) = 0"
proof -
  assume run: "run_mission f t (logged INFO ''Repeating mission for {} seconds.'' w)
    = Some (Inr False, w1)"
  from run_mission_counts [OF run] obtain evs where
    "trace w1 = trace (logged INFO ''Repeating mission for {} seconds.'' w) @ evs"
    "restarts evs = 0" by blast
  then have "restarts (new_trace w (logged INFO ''Mission failed.''
       (logged INFO ''Elapsed time = {} (out of {})'' w1))) = 0"
    by (simp add: new_trace_def logged_def restarts_def)
  with repeat_mission_start [OF run] show ?thesis by simp
qed

theorem repeat_mission_first_run_fails_witness:
  "run_mission False 3
     (logged INFO ''Repeating mission for {} seconds.''
       (initial_world Map.empty {} [(0, Returns (PState failed))])) =
   Some (Inr False,
     \<lparr>files = Map.empty, dirs = {}, script = [],
      trace = [(Log INFO ''Repeating mission for {} seconds.'', Returns PNone),
        (Log INFO ''Running mission'', Returns PNone),
        (GetState, Returns (PState failed))],
      clock = 0, wallet = 0\<rparr>) \<and>
   repeat_mission 10 False 3 (initial_world Map.empty {} [(0, Returns (PState failed))]) =
   Some (Inr False,
     \<lparr>files = Map.empty, dirs = {}, script = [],
      trace = [(Log INFO ''Repeating mission for {} seconds.'', Returns PNone),
        (Log INFO ''Running mission'', Returns PNone),
        (GetState, Returns (PState failed)),
        (Log INFO ''Elapsed time = {} (out of {})'', Returns PNone),
        (Log INFO ''Mission failed.'', Returns PNone)],
      clock = 0, wallet = 0\<rparr>)"
proof -
  have run: "run_mission False 3
     (logged INFO ''Repeating mission for {} seconds.''
       (initial_world Map.empty {} [(0, Returns (PState failed))])) =
   Some (Inr False,
     \<lparr>files = Map.empty, dirs = {}, script = [],
      trace = [(Log INFO ''Repeating mission for {} seconds.'', Returns PNone),
        (Log INFO ''Running mission'', Returns PNone),
        (GetState, Returns (PState failed))],
      clock = 0, wallet = 0\<rparr>)"
    by (simp add: repeat_mission_eval)
  from repeat_mission_first_run_fails [OF run, of 10] run show ?thesis
    by (simp add: logged_def)
qed

text \<open>
  C6, as the script has it. The loop of \<^verbatim>\<open>repeat_mission\<close> measures the time from the
  start of the first run, and the restart between two runs takes time as well: its call,
  and the second it sleeps. With a total time of 10 seconds: when the first run takes 4
  seconds and succeeds, the restart after it takes less than 2 seconds, and the two runs
  that follow take 4 seconds each and succeed, \<^verbatim>\<open>repeat_mission\<close> makes exactly three
  runs and two restarts, at least 10 seconds have gone by when it stops, and it returns
  true. (Times are real numbers here; the rounding of Python's floats is not modelled.)
\<close>

theorem repeat_mission_three_runs:
  assumes r1: "run_mission f t (logged INFO ''Repeating mission for {} seconds.'' w)
      = Some (Inr True, w1)"
    and t1: "clock w1 = clock w + 4"
    and s1: "restart_mission 3 (logged INFO ''Elapsed time = {} (out of {})'' w1)
      = Some (Inr b1, w2)"
    and q1: "clock w2 < clock w1 + 2"
    and r2: "run_mission f t w2 = Some (Inr True, w3)"
    and t2: "clock w3 = clock w2 + 4"
    and s2: "restart_mission 3 (logged INFO ''Elapsed time = {} (out of {})'' w3)
      = Some (Inr b2, w4)"
    and r3: "run_mission f t w4 = Some (Inr True, w5)"
    and t3: "clock w5 = clock w4 + 4"
  shows "repeat_mission 10 f t w =
      Some (Inr True, logged INFO ''Elapsed time = {} (out of {})'' w5) \<and>
    runs (new_trace w (logged INFO ''Elapsed time = {} (out of {})'' w5)) = 3 \<and>
    restarts (new_trace w (logged INFO ''Elapsed time = {} (out of {})'' w5)) = 2 \<and>
    10 \<le> clock w5 - clock w"
proof -
  let ?el = "logged INFO ''Elapsed time = {} (out of {})''"
  from restart_mission_returned [OF s1] obtain a1 where
    c1: "clock w1 + 1 \<le> clock w2" and
    e1: "trace w2 = trace (?el w1) @ [(Log INFO ''Restarting mission'', Returns PNone),
      (RestartMission (clock (?el w1) + 3) [Suc (wallet (?el w1))], a1), (Sleep 1, Returns PNone)]"
    by (auto simp: logged_def)
  from restart_mission_returned [OF s2] obtain a2 where
    c2: "clock w3 + 1 \<le> clock w4" and
    e2: "trace w4 = trace (?el w3) @ [(Log INFO ''Restarting mission'', Returns PNone),
      (RestartMission (clock (?el w3) + 3) [Suc (wallet (?el w3))], a2), (Sleep 1, Returns PNone)]"
    by (auto simp: logged_def)
  have step1: "restart_and_run (clock w) f t (?el w1) = Some (Inr (True, clock w3 - clock w), ?el w3)"
    by (rule restart_and_run_returned [OF s1 r2])
  have step2: "restart_and_run (clock w) f t (?el w3) = Some (Inr (True, clock w5 - clock w), ?el w5)"
    by (rule restart_and_run_returned [OF s2 r3])
  have "repeat_mission 10 f t w = repeat_loop (clock w) 10 f t True (clock w1 - clock w) (?el w1)"
    using repeat_mission_start [OF r1] by simp
  also have "\<dots> = repeat_loop (clock w) 10 f t True (clock w3 - clock w) (?el w3)"
    using t1 by (intro repeat_loop_again step1) simp
  also have "\<dots> = repeat_loop (clock w) 10 f t True (clock w5 - clock w) (?el w5)"
    using t1 t2 q1 by (intro repeat_loop_again step2) simp
  also have "\<dots> = Some (Inr True, ?el w5)"
    using t1 t2 t3 c1 c2 by (intro repeat_loop_done) simp
  finally have res: "repeat_mission 10 f t w = Some (Inr True, ?el w5)" .
  from run_mission_counts [OF r1] obtain v1 where
    v1: "trace w1 = trace (logged INFO ''Repeating mission for {} seconds.'' w) @ v1"
      "runs v1 = 1" "restarts v1 = 0" by blast
  from run_mission_counts [OF r2] obtain v2 where
    v2: "trace w3 = trace w2 @ v2" "runs v2 = 1" "restarts v2 = 0" by blast
  from run_mission_counts [OF r3] obtain v3 where
    v3: "trace w5 = trace w4 @ v3" "runs v3 = 1" "restarts v3 = 0" by blast
  have "runs (new_trace w (?el w5)) = 3 \<and> restarts (new_trace w (?el w5)) = 2"
    using v1 v2 v3 e1 e2
    by (simp add: new_trace_def logged_def runs_def restarts_def)
  moreover have "10 \<le> clock w5 - clock w"
    using t1 t2 t3 c1 c2 by simp
  ultimately show ?thesis using res by simp
qed

theorem repeat_mission_three_runs_witness:
  "map_option (\<lambda>(r, w'). (r, runs (trace w'), restarts (trace w'), clock w'))
     (repeat_mission 10 False 3 (three_short_runs STATUS_SUCCESS STATUS_FAILURE)) = Some (Inr True, 3, 2, 14 + 1 / 2)"
proof -
  let ?el = "logged INFO ''Elapsed time = {} (out of {})''"
  define w1 where "w1 = snd (the (run_mission False 3
     (logged INFO ''Repeating mission for {} seconds.'' (three_short_runs STATUS_SUCCESS STATUS_FAILURE))))"
  define w2 where "w2 = snd (the (restart_mission 3 (?el w1)))"
  define w3 where "w3 = snd (the (run_mission False 3 w2))"
  define w4 where "w4 = snd (the (restart_mission 3 (?el w3)))"
  define w5 where "w5 = snd (the (run_mission False 3 w4))"
  have r1: "run_mission False 3
      (logged INFO ''Repeating mission for {} seconds.'' (three_short_runs STATUS_SUCCESS STATUS_FAILURE)) = Some (Inr True, w1)"
    and t1: "clock w1 = clock (three_short_runs STATUS_SUCCESS STATUS_FAILURE) + 4"
    by (simp_all add: w1_def repeat_mission_eval)
  have s1: "restart_mission 3 (?el w1) = Some (Inr True, w2)" and q1: "clock w2 < clock w1 + 2"
    by (simp_all add: w2_def w1_def repeat_mission_eval)
  have r2: "run_mission False 3 w2 = Some (Inr True, w3)" and t2: "clock w3 = clock w2 + 4"
    by (simp_all add: w3_def w2_def w1_def repeat_mission_eval)
  have s2: "restart_mission 3 (?el w3) = Some (Inr False, w4)"
    by (simp_all add: w4_def w3_def w2_def w1_def repeat_mission_eval)
  have r3: "run_mission False 3 w4 = Some (Inr True, w5)" and t3: "clock w5 = clock w4 + 4"
    by (simp_all add: w5_def w4_def w3_def w2_def w1_def repeat_mission_eval)
  have c5: "clock w5 = 14 + 1 / 2"
    by (simp add: w5_def w4_def w3_def w2_def w1_def repeat_mission_eval)
  from repeat_mission_three_runs [OF r1 t1 s1 q1 r2 t2 s2 r3 t3] c5
  show ?thesis
    by (simp add: new_trace_def three_short_runs_def initial_world_def logged_def
        runs_def restarts_def)
qed

text \<open>
  The claim as it was stated says nothing of the time the restarts take. Here every run
  takes 4 seconds and succeeds (the first conjunct shows one such run, from the start of
  the clock), and each restart-mission call takes one second to answer, so that a restart
  lasts 2 seconds: the second run ends 10 seconds after the start, the loop stops there,
  and \<^verbatim>\<open>repeat_mission\<close> has made two runs and one restart.
\<close>

theorem repeat_mission_three_runs_counterexample:
  "map_option (\<lambda>(r, w'). (r, runs (trace w'), clock w'))
     (run_mission False 3 (initial_world Map.empty {} four_second_run)) = Some (Inr True, 1, 4) \<and>
   map_option (\<lambda>(r, w'). (r, runs (trace w'), restarts (trace w'), clock w'))
     (repeat_mission 10 False 3 (three_runs 1000)) = Some (Inr True, 2, 1, 10)"
  by (simp add: repeat_mission_eval)

subsection \<open>The status a restart returns\<close>

text \<open>
  C10. \<^verbatim>\<open>repeat_mission\<close> does not depend on the status its restarts return. Take two
  worlds that differ in their scripts only, and the scripts only in answers that return a
  status on both sides (as two runs do that differ only in the statuses their restarts
  return). Then \<^verbatim>\<open>repeat_mission\<close> ends in the one exactly if it ends in the other, and
  then with the same outcome (the same value returned or the same exception), after the
  same calls in the same order (the same runs, polls, play-mission calls and restarts), at
  the same time and with the same lease.
\<close>

theorem repeat_mission_restart_status:
  assumes "scripts_alike (script w) answers"
  shows "(repeat_mission total_time f t w = None \<longleftrightarrow>
            repeat_mission total_time f t (w\<lparr>script := answers\<rparr>) = None) \<and>
    (\<forall>r v r' v'. repeat_mission total_time f t w = Some (r, v) \<and>
        repeat_mission total_time f t (w\<lparr>script := answers\<rparr>) = Some (r', v') \<longrightarrow>
        r = r' \<and> map fst (trace v) = map fst (trace v') \<and>
        clock v = clock v' \<and> wallet v = wallet v')"
proof -
  from assms have "alike w (w\<lparr>script := answers\<rparr>)"
    by (simp add: alike_def traces_alike_refl)
  then have "agree (=) (repeat_mission total_time f t w)
      (repeat_mission total_time f t (w\<lparr>script := answers\<rparr>))"
    by (rule agree_repeat_mission)
  then show ?thesis
    by (cases rule: agree_cases) (auto simp: alike_def dest: traces_alike_calls)
qed

theorem repeat_mission_restart_status_witness:
  "scripts_alike (script (three_short_runs STATUS_SUCCESS STATUS_SUCCESS))
     (script (three_short_runs STATUS_ERROR STATUS_NONE)) \<and>
   map_option (\<lambda>(r, v). (r, runs (trace v), restarts (trace v), clock v))
     (repeat_mission 10 False 3 (three_short_runs STATUS_SUCCESS STATUS_SUCCESS)) =
     Some (Inr True, 3, 2, 14 + 1 / 2) \<and>
   map_option (\<lambda>(r, v). (r, runs (trace v), restarts (trace v), clock v))
     (repeat_mission 10 False 3 (three_short_runs STATUS_ERROR STATUS_NONE)) =
     Some (Inr True, 3, 2, 14 + 1 / 2)"
proof -
  have alike: "scripts_alike (script (three_short_runs STATUS_SUCCESS STATUS_SUCCESS))
     (script (three_short_runs STATUS_ERROR STATUS_NONE))"
    by (simp add: scripts_alike_def status_blind_def three_short_runs_def initial_world_def
        one_turn_run_def)
  have same: "(three_short_runs STATUS_SUCCESS STATUS_SUCCESS)
      \<lparr>script := script (three_short_runs STATUS_ERROR STATUS_NONE)\<rparr> =
    three_short_runs STATUS_ERROR STATUS_NONE"
    by (simp add: three_short_runs_def initial_world_def)
  have one: "map_option (\<lambda>(r, v). (r, runs (trace v), restarts (trace v), clock v))
     (repeat_mission 10 False 3 (three_short_runs STATUS_SUCCESS STATUS_SUCCESS)) =
     Some (Inr True, 3, 2, 14 + 1 / 2)"
    by (simp add: repeat_mission_eval)
  have two: "map_option (\<lambda>(r, v). (r, runs (trace v), restarts (trace v), clock v))
     (repeat_mission 10 False 3 (three_short_runs STATUS_ERROR STATUS_NONE)) =
     Some (Inr True, 3, 2, 14 + 1 / 2)"
    by (simp add: repeat_mission_eval)
  from repeat_mission_restart_status [OF alike, of 10 False 3] alike one two
  show ?thesis by simp
qed

subsection \<open>Without a map directory\<close>

text \<open>
  C8. When \<^verbatim>\<open>main\<close> is invoked without a map directory, no call that clears the
  localization state or uploads the graph, a waypoint snapshot or an edge snapshot is made,
  and no run is aborted on an operator question (the abort always logs its line, and that
  line is never logged): in whatever environment, from the start of \<^verbatim>\<open>main\<close> to its end.
\<close>

theorem no_map_directory:
  "map_directory a = None \<Longrightarrow> main a w = Some (r, w') \<Longrightarrow>
   list_all (\<lambda>(e, x). \<not> graph_nav_call e \<and> e \<noteq> question_abort) (new_trace w w')"
proof -
  assume none: "map_directory a = None" and run: "main a w = Some (r, w')"
  from emitsD [OF emits_main run] none obtain evs where
    "trace w' = trace w @ evs" "list_all (main_ok False False) evs" by auto
  then show ?thesis by (simp add: new_trace_def main_ok_def)
qed

theorem no_map_directory_witness:
  "map_directory mission_only = None \<and>
   fst (the (main mission_only (full_run (Returns PNone)))) = Inr () \<and>
   polled (trace (snd (the (main mission_only (full_run (Returns PNone)))))) = [asking, succeeded] \<and>
   list_all (\<lambda>(e, x). \<not> graph_nav_call e \<and> e \<noteq> question_abort)
     (new_trace (full_run (Returns PNone))
        (snd (the (main mission_only (full_run (Returns PNone))))))"
proof -
  have none: "map_directory mission_only = None" by (simp add: mission_only_def)
  have run: "main mission_only (full_run (Returns PNone)) =
    Some (Inr (), snd (the (main mission_only (full_run (Returns PNone)))))"
    by (simp add: main_eval)
  have polls: "polled (trace (snd (the (main mission_only (full_run (Returns PNone)))))) =
     [asking, succeeded]"
    by (simp add: main_eval asking_def)
  have res: "fst (the (main mission_only (full_run (Returns PNone)))) = Inr ()"
    by (simp add: main_eval)
  from no_map_directory [OF none run] none res polls show ?thesis by simp
qed

subsection \<open>A missing mission file\<close>



subsection \<open>The return of the lease\<close>

text \<open>
  C1. The \<^verbatim>\<open>finally\<close> block of \<^verbatim>\<open>main\<close> first attempts the power-off and then returns the
  lease. However the body of the \<^verbatim>\<open>try\<close> statement ends (a value, an exception, the exit
  on a missing file), the block runs, and the body itself never returns the lease: so the
  lease is returned exactly once when the power-off attempt returns, with either result
  (lemma \<open>replay_returns_lease_once\<close>). But the attempt is a sequence of calls to the robot,
  and when one of them raises, the exception leaves the \<^verbatim>\<open>finally\<close> block before the
  lease is returned. In the run below the lease 7 is acquired, the mission runs and
  succeeds, and the power-off call of the release raises: \<^verbatim>\<open>main\<close> ends with that
  exception and the lease has not been returned.
\<close>

theorem release_skipped_when_power_off_raises:
  "map_option (\<lambda>(r, w'). (r, (AcquireLease, Returns (PLease 7)) \<in> set (trace w'),
       (PowerOff False 20, Raises) \<in> set (trace w'), returned_leases (trace w')))
     (main mission_only (full_run Raises)) = Some (Inl Fault, True, True, 0)"
  by (simp add: main_eval)

end
